theory Spec2Isabelle
  imports Main "HOL-Library.Word"
begin

unbundle bit_operations_syntax

section \<open>Data model\<close>

text \<open>
  The unit under verification is \<^verbatim>\<open>torch/lib/THD/master_worker/common/CommandChannel.cpp\<close>:
  the framing functions of the anonymous namespace, \<^verbatim>\<open>MasterCommandChannel\<close> and
  \<^verbatim>\<open>WorkerCommandChannel\<close>.

  A socket descriptor is an \<^typ>\<open>int\<close>; \<open>-1\<close> is the "no socket" sentinel of the source.
  Bytes on the wire are \<^typ>\<open>8 word\<close>; a \<^verbatim>\<open>std::string\<close> is a \<^typ>\<open>string\<close>.
  \<^verbatim>\<open>rank_type\<close> is declared outside this file as an unsigned integer; it is a \<^typ>\<open>nat\<close> here.
\<close>

type_synonym byte = "8 word"
type_synonym rank_type = nat

text \<open>The exceptions that leave the functions of this file.\<close>

datatype cpp_error =
    RuntimeError string   \<comment> \<open>\<^verbatim>\<open>std::runtime_error\<close>, thrown by \<^verbatim>\<open>MasterCommandChannel::sendMessage\<close>\<close>
  | DomainError string    \<comment> \<open>\<^verbatim>\<open>std::domain_error\<close>, thrown by \<^verbatim>\<open>MasterCommandChannel::sendMessage\<close>\<close>
  | OutOfRange            \<comment> \<open>\<^verbatim>\<open>std::out_of_range\<close>, thrown by \<^verbatim>\<open>std::vector::at\<close>\<close>
  | SystemError string    \<comment> \<open>\<^verbatim>\<open>std::system_error\<close>, thrown by the transport helpers\<close>

text \<open>
  How a call ends: it returns a value, it throws, or it never returns because it waits
  for a peer that stays silent.
\<close>

datatype 'a outcome = Returns 'a | Throws cpp_error | Blocks

text \<open>
  The calls a channel makes to its collaborators and its writes to the exit flag, logged
  in the order they happen.
\<close>

datatype event =
    EvListen nat int              \<comment> \<open>\<^verbatim>\<open>listen(port)\<close> handed out this descriptor\<close>
  | EvAccept int int              \<comment> \<open>\<^verbatim>\<open>accept(listen_socket)\<close> handed out this descriptor\<close>
  | EvRecvRank int rank_type      \<comment> \<open>\<^verbatim>\<open>recv_bytes<rank_type>\<close> read this rank\<close>
  | EvConnect int                 \<comment> \<open>\<^verbatim>\<open>connect(addr, port)\<close> handed out this descriptor\<close>
  | EvSendRank int rank_type      \<comment> \<open>\<^verbatim>\<open>send_bytes<rank_type>\<close> wrote this rank\<close>
  | EvSend int "byte list"        \<comment> \<open>\<^verbatim>\<open>send_bytes\<close> wrote these bytes\<close>
  | EvRecv int nat                \<comment> \<open>\<^verbatim>\<open>recv_bytes\<close> read that many bytes\<close>
  | EvPoll "int list" int         \<comment> \<open>\<^verbatim>\<open>poll\<close> on these descriptors with this timeout (ms)\<close>
  | EvClose int
  | EvSetExiting                  \<comment> \<open>the write \<^verbatim>\<open>_exiting = true\<close>, seen by the listener thread\<close>
  | EvSpawn                       \<comment> \<open>the listener thread is started\<close>
  | EvJoin                        \<comment> \<open>\<^verbatim>\<open>_error_thread.join()\<close>\<close>

text \<open>
  What a process sees of the outside: the log of its calls; the bytes that will arrive on
  each descriptor; which peers have gone away; the descriptors that \<^verbatim>\<open>listen\<close> and
  \<^verbatim>\<open>connect\<close> hand out; the descriptors of the connections waiting to be accepted, in
  the order of their arrival; and the rank that the peer of a connection announces in
  its handshake, if it does.
\<close>

record world =
  trace :: "event list"
  incoming :: "int \<Rightarrow> byte list"
  peer_gone :: "int \<Rightarrow> bool"
  listen_fd :: int
  connect_fd :: int
  backlog :: "int list"
  hello :: "int \<Rightarrow> rank_type option"

section \<open>Transport helpers\<close>

text \<open>
  Modelled from the spec: \<^verbatim>\<open>send_bytes\<close> and \<^verbatim>\<open>recv_bytes\<close> of
  \<^verbatim>\<open>base/ChannelUtils.hpp\<close>, which is not part of the sources at hand. The spec says of
  them: a write fails if the underlying write fails or the connection is closed; a read
  blocks until all bytes are available or the connection errors or closes, in which case
  it fails with a read error; a numeric value travels in a fixed, endian-normalized
  representation, payload bytes travel as they are.
\<close>

definition send_bytes :: "world \<Rightarrow> int \<Rightarrow> byte list \<Rightarrow> unit outcome \<times> world" where
  "send_bytes w s bs =
     (if s < 0 \<or> peer_gone w s then (Throws (SystemError ''send''), w)
      else (Returns (), w\<lparr>trace := trace w @ [EvSend s bs]\<rparr>))"

definition recv_bytes :: "world \<Rightarrow> int \<Rightarrow> nat \<Rightarrow> byte list outcome \<times> world" where
  "recv_bytes w s n =
     (let buf = incoming w s in
      if s < 0 then (Throws (SystemError ''recv''), w)
      else if n \<le> length buf then
        (Returns (take n buf),
         w\<lparr>trace := trace w @ [EvRecv s n], incoming := (incoming w)(s := drop n buf)\<rparr>)
      else if peer_gone w s then
        (Throws (SystemError ''recv''), w\<lparr>incoming := (incoming w)(s := [])\<rparr>)
      else (Blocks, w\<lparr>incoming := (incoming w)(s := [])\<rparr>))"

text \<open>
  Modelled from the spec: the fixed representation of a \<^verbatim>\<open>std::uint64_t\<close> on the wire,
  here eight bytes, most significant first.
\<close>

definition u64_to_bytes :: "64 word \<Rightarrow> byte list" where
  "u64_to_bytes v = map (\<lambda>k. ucast (drop_bit (8 * k) v)) [7, 6, 5, 4, 3, 2, 1, 0]"

definition bytes_to_u64 :: "byte list \<Rightarrow> 64 word" where
  "bytes_to_u64 bs = foldl (\<lambda>acc b. push_bit 8 acc OR ucast b) 0 bs"

definition send_u64 :: "world \<Rightarrow> int \<Rightarrow> 64 word \<Rightarrow> unit outcome \<times> world" where
  "send_u64 w s v = send_bytes w s (u64_to_bytes v)"

definition recv_u64 :: "world \<Rightarrow> int \<Rightarrow> 64 word outcome \<times> world" where
  "recv_u64 w s =
     (case recv_bytes w s 8 of
        (Returns bs, w1) \<Rightarrow> (Returns (bytes_to_u64 bs), w1)
      | (Throws e, w1) \<Rightarrow> (Throws e, w1)
      | (Blocks, w1) \<Rightarrow> (Blocks, w1))"

text \<open>The bytes written to descriptor \<open>s\<close> in a log: what the peer of \<open>s\<close> will read.\<close>

fun sent_to :: "int \<Rightarrow> event list \<Rightarrow> byte list" where
  "sent_to s [] = []"
| "sent_to s (EvSend s' bs # es) = (if s' = s then bs @ sent_to s es else sent_to s es)"
| "sent_to s (_ # es) = sent_to s es"

section \<open>Framing: the anonymous namespace\<close>

text \<open>
  \<^verbatim>\<open>void sendMessage(int socket, std::unique_ptr<rpc::RPCMessage> msg)\<close>: the message is
  its byte string. The length is cast to \<^verbatim>\<open>std::uint64_t\<close>, sent first, and that many bytes
  of the payload follow.
\<close>

definition sendMessage :: "world \<Rightarrow> int \<Rightarrow> byte list \<Rightarrow> unit outcome \<times> world" where
  "sendMessage w socket bytes =
     (let msg_length = (of_nat (length bytes) :: 64 word) in
      case send_u64 w socket msg_length of
        (Returns _, w1) \<Rightarrow> send_bytes w1 socket (take (unat msg_length) bytes)
      | (Throws e, w1) \<Rightarrow> (Throws e, w1)
      | (Blocks, w1) \<Rightarrow> (Blocks, w1))"

text \<open>
  \<^verbatim>\<open>std::unique_ptr<rpc::RPCMessage> receiveMessage(int socket)\<close>: reads the length, then
  that many bytes; the declared length is not checked against any bound. Memory is taken
  as unbounded: the allocation of the buffer does not fail.
\<close>

definition receiveMessage :: "world \<Rightarrow> int \<Rightarrow> byte list outcome \<times> world" where
  "receiveMessage w socket =
     (case recv_u64 w socket of
        (Returns msg_length, w1) \<Rightarrow> recv_bytes w1 socket (unat msg_length)
      | (Throws e, w1) \<Rightarrow> (Throws e, w1)
      | (Blocks, w1) \<Rightarrow> (Blocks, w1))"

text \<open>The same encoding written as a recursion over the number of bytes, for induction.\<close>

fun be_bytes :: "nat \<Rightarrow> 64 word \<Rightarrow> byte list" where
  "be_bytes 0 v = []"
| "be_bytes (Suc k) v = be_bytes k (drop_bit 8 v) @ [ucast v]"

section \<open>Connection helpers\<close>

text \<open>
  Modelled from the spec: \<^verbatim>\<open>listen\<close>, \<^verbatim>\<open>accept\<close> and \<^verbatim>\<open>connect\<close> of
  \<^verbatim>\<open>base/ChannelUtils.hpp\<close>, and the raw (not frame-wrapped) handshake value of type
  \<^verbatim>\<open>rank_type\<close> that \<^verbatim>\<open>send_bytes\<close> and \<^verbatim>\<open>recv_bytes\<close> carry at that type.
  \<^verbatim>\<open>listen\<close> and \<^verbatim>\<open>connect\<close> fail when the outside has no descriptor to hand out (a
  negative one stands for that); \<^verbatim>\<open>accept\<close> on a descriptor that is not the listening
  one fails; with no connection waiting it does not return.
\<close>

definition listen :: "world \<Rightarrow> nat \<Rightarrow> int outcome \<times> world" where
  "listen w p =
     (if listen_fd w < 0 then (Throws (SystemError ''listen''), w)
      else (Returns (listen_fd w), w\<lparr>trace := trace w @ [EvListen p (listen_fd w)]\<rparr>))"

definition accept :: "world \<Rightarrow> int \<Rightarrow> int outcome \<times> world" where
  "accept w s =
     (if s \<noteq> listen_fd w then (Throws (SystemError ''accept''), w)
      else case backlog w of
        [] \<Rightarrow> (Blocks, w)
      | c # cs \<Rightarrow> (Returns c, w\<lparr>trace := trace w @ [EvAccept s c], backlog := cs\<rparr>))"

definition connect :: "world \<Rightarrow> int outcome \<times> world" where
  "connect w =
     (if connect_fd w < 0 then (Throws (SystemError ''connect''), w)
      else (Returns (connect_fd w), w\<lparr>trace := trace w @ [EvConnect (connect_fd w)]\<rparr>))"

definition send_rank :: "world \<Rightarrow> int \<Rightarrow> rank_type \<Rightarrow> unit outcome \<times> world" where
  "send_rank w s r =
     (if s < 0 \<or> peer_gone w s then (Throws (SystemError ''send''), w)
      else (Returns (), w\<lparr>trace := trace w @ [EvSendRank s r]\<rparr>))"

definition recv_rank :: "world \<Rightarrow> int \<Rightarrow> rank_type outcome \<times> world" where
  "recv_rank w s =
     (case hello w s of
        Some r \<Rightarrow>
          (Returns r, w\<lparr>trace := trace w @ [EvRecvRank s r], hello := (hello w)(s := None)\<rparr>)
      | None \<Rightarrow>
          if s < 0 \<or> peer_gone w s then (Throws (SystemError ''recv''), w) else (Blocks, w))"

section \<open>The master channel\<close>

text \<open>
  \<^verbatim>\<open>struct pollfd\<close> and, with their values on Linux, the bits \<^verbatim>\<open>POLLIN\<close> and
  \<^verbatim>\<open>POLLHUP\<close> of \<^verbatim>\<open>poll.h\<close>.
\<close>

record pollfd =
  fd :: int
  events :: "16 word"
  revents :: "16 word"

definition POLLIN :: "16 word" where
  "POLLIN = 1"

definition POLLHUP :: "16 word" where
  "POLLHUP = 16"

text \<open>
  The members of \<^verbatim>\<open>MasterCommandChannel\<close>. \<^verbatim>\<open>_poll_events\<close> is \<open>None\<close> while the
  pointer is null, \<^verbatim>\<open>_error\<close> likewise; the thread handle is the log entry \<open>EvSpawn\<close>.
\<close>

record master =
  rank :: rank_type
  port :: nat
  sockets :: "int list"
  poll_events :: "pollfd list option"
  exiting :: bool
  started :: bool
  error :: "string option"

text \<open>
  The constructor; the port and the world size are what \<^verbatim>\<open>load_master_env\<close> returns.
\<close>

definition MasterCommandChannel :: "nat \<Rightarrow> nat \<Rightarrow> master" where
  "MasterCommandChannel env_port world_size =
     \<lparr>rank = 0, port = env_port, sockets = replicate world_size (- 1), poll_events = None,
      exiting = False, started = False, error = None\<rparr>"

text \<open>
  \<^verbatim>\<open>MasterCommandChannel::init\<close>, first loop: one pass accepts a connection, reads the
  rank its peer announces and stores the descriptor with \<^verbatim>\<open>_sockets.at(rank)\<close>, which
  throws when the rank is not an index of the vector. The loop makes
  \<^verbatim>\<open>_sockets.size() - 1\<close> passes.
\<close>

fun accept_loop :: "nat \<Rightarrow> master \<Rightarrow> world \<Rightarrow> unit outcome \<times> master \<times> world" where
  "accept_loop 0 st w = (Returns (), st, w)"
| "accept_loop (Suc k) st w =
     (case accept w (sockets st ! 0) of
        (Returns socket, w1) \<Rightarrow>
          (case recv_rank w1 socket of
             (Returns r, w2) \<Rightarrow>
               if r < length (sockets st)
               then accept_loop k (st\<lparr>sockets := (sockets st)[r := socket]\<rparr>) w2
               else (Throws OutOfRange, st, w2)
           | (Throws e, w2) \<Rightarrow> (Throws e, st, w2)
           | (Blocks, w2) \<Rightarrow> (Blocks, st, w2))
      | (Throws e, w1) \<Rightarrow> (Throws e, st, w1)
      | (Blocks, w1) \<Rightarrow> (Blocks, st, w1))"

text \<open>Second loop: one confirmation byte to \<^verbatim>\<open>_sockets[i]\<close> for \<open>i\<close> from 1 on.\<close>

fun confirm_loop :: "int list \<Rightarrow> world \<Rightarrow> unit outcome \<times> world" where
  "confirm_loop [] w = (Returns (), w)"
| "confirm_loop (s # ss) w =
     (case send_bytes w s [1] of
        (Returns _, w1) \<Rightarrow> confirm_loop ss w1
      | (Throws e, w1) \<Rightarrow> (Throws e, w1)
      | (Blocks, w1) \<Rightarrow> (Blocks, w1))"

text \<open>
  \<^verbatim>\<open>MasterCommandChannel::init\<close>. The vector has one entry per process of the job, the
  master included, so entry 0 exists.
\<close>

definition Master_init :: "master \<Rightarrow> world \<Rightarrow> bool outcome \<times> master \<times> world" where
  "Master_init st w =
     (case listen w (port st) of
        (Returns lfd, w0) \<Rightarrow>
          (let st0 = st\<lparr>sockets := (sockets st)[0 := lfd]\<rparr>
           in case accept_loop (length (sockets st0) - 1) st0 w0 of
             (Returns _, st1, w1) \<Rightarrow>
               (case confirm_loop (tl (sockets st1)) w1 of
                  (Returns _, w2) \<Rightarrow>
                    (Returns True,
                     st1\<lparr>sockets := (sockets st1)[0 := - 1], started := True\<rparr>,
                     w2\<lparr>trace := trace w2 @ [EvClose (sockets st1 ! 0), EvSpawn]\<rparr>)
                | (Throws e, w2) \<Rightarrow> (Throws e, st1, w2)
                | (Blocks, w2) \<Rightarrow> (Blocks, st1, w2))
           | (Throws e, st1, w1) \<Rightarrow> (Throws e, st1, w1)
           | (Blocks, st1, w1) \<Rightarrow> (Blocks, st1, w1))
      | (Throws e, w0) \<Rightarrow> (Throws e, st, w0)
      | (Blocks, w0) \<Rightarrow> (Blocks, st, w0))"

text \<open>
  \<^verbatim>\<open>MasterCommandChannel::~MasterCommandChannel\<close>. The join is logged as the call it is;
  that the thread function returns once the flag is set is a property of
  \<^verbatim>\<open>errorHandler\<close>, proved below.
\<close>

definition Master_dtor :: "master \<Rightarrow> world \<Rightarrow> master \<times> world" where
  "Master_dtor st w =
     (let st1 = st\<lparr>exiting := True\<rparr>;
          w1 = w\<lparr>trace := trace w @ [EvSetExiting]\<rparr>;
          w2 = (if started st1 then w1\<lparr>trace := trace w1 @ [EvJoin]\<rparr> else w1)
      in (st1, w2\<lparr>trace := trace w2 @
                     map EvClose (filter (\<lambda>socket. socket \<noteq> - 1) (sockets st1))\<rparr>))"

text \<open>
  \<^verbatim>\<open>MasterCommandChannel::sendMessage\<close>. The comparison \<^verbatim>\<open>rank >= _sockets.size()\<close>
  converts the \<^verbatim>\<open>int\<close> to the unsigned \<^verbatim>\<open>size_t\<close> (64 bits).
\<close>

definition Master_sendMessage ::
    "master \<Rightarrow> world \<Rightarrow> byte list \<Rightarrow> int \<Rightarrow> unit outcome \<times> world" where
  "Master_sendMessage st w msg r =
     (case error st of
        Some e \<Rightarrow> (Throws (RuntimeError e), w)
      | None \<Rightarrow>
          if r \<le> 0 \<or> r mod 2 ^ 64 \<ge> int (length (sockets st))
          then (Throws (DomainError ''sendMessage received invalid rank as parameter''), w)
          else sendMessage w (sockets st ! nat r) msg)"

subsection \<open>The listener\<close>

text \<open>
  One return of \<^verbatim>\<open>poll\<close> as the listener thread meets it: either the call fails (and
  \<^verbatim>\<open>SYSCHECK\<close> throws an exception with this text), or it returns a count and has filled
  in \<^verbatim>\<open>revents\<close>; and whether the destructor has set \<^verbatim>\<open>_exiting\<close> by then.
  A script is the list of the returns to come; the timeout of 500 ms makes each call return.
  The two threads meet in the flag only: the write of the destructor is taken to land
  while the listener waits in \<^verbatim>\<open>poll\<close>, and \<^verbatim>\<open>errorHandler\<close> tests the flag as
  \<^verbatim>\<open>recvError\<close> left it.
\<close>

datatype poll_result = PollThrows string | PollReturns int "16 word list"

record wake =
  result :: poll_result
  exit_seen :: bool

text \<open>
  \<^verbatim>\<open>poll(2)\<close> writes \<^verbatim>\<open>revents\<close>; an entry with a negative descriptor is ignored and its
  \<^verbatim>\<open>revents\<close> is 0.
\<close>

definition poll :: "pollfd list \<Rightarrow> 16 word list \<Rightarrow> pollfd list" where
  "poll pfds rs =
     map (\<lambda>(p, r). p\<lparr>revents := (if fd p < 0 then 0 else r)\<rparr>)
       (zip pfds (rs @ replicate (length pfds - length rs) 0))"

text \<open>
  The wait loop of \<^verbatim>\<open>recvError\<close>: \<^verbatim>\<open>while (ret == 0)\<close> around \<^verbatim>\<open>poll\<close> with the check of
  \<^verbatim>\<open>_exiting\<close>. It ends because the channel is exiting, because \<^verbatim>\<open>poll\<close> failed, or
  because \<^verbatim>\<open>poll\<close> returned a count other than 0; \<open>None\<close> when the script ends first.
\<close>

datatype waited = Exiting | Failed string | Ready

fun wait_loop :: "bool \<Rightarrow> world \<Rightarrow> pollfd list \<Rightarrow> wake list
    \<Rightarrow> (waited \<times> bool \<times> pollfd list \<times> world \<times> wake list) option" where
  "wait_loop ex w pfds [] = None"
| "wait_loop ex w pfds (wk # script) =
     (let w1 = w\<lparr>trace := trace w @ [EvPoll (map fd pfds) 500]\<rparr>;
          ex1 = (ex \<or> exit_seen wk)
      in case result wk of
        PollThrows msg \<Rightarrow> Some (Failed msg, ex1, pfds, w1, script)
      | PollReturns ret rs \<Rightarrow>
          if ex1 then Some (Exiting, ex1, poll pfds rs, w1, script)
          else if ret = 0 then wait_loop ex1 w1 (poll pfds rs) script
          else Some (Ready, ex1, poll pfds rs, w1, script))"

text \<open>The scan of \<^verbatim>\<open>recvError\<close> stops at the first rank whose \<^verbatim>\<open>revents\<close> is not 0.\<close>

fun first_ready :: "pollfd list \<Rightarrow> nat \<Rightarrow> nat option" where
  "first_ready [] r = None"
| "first_ready (p # ps) r = (if revents p = 0 then first_ready ps (Suc r) else Some r)"

text \<open>Bytes and the characters of a \<^verbatim>\<open>std::string\<close>.\<close>

definition char_of_byte :: "byte \<Rightarrow> char" where
  "char_of_byte b = char_of (unat b)"

definition byte_of_char :: "char \<Rightarrow> byte" where
  "byte_of_char c = of_char c"

text \<open>The text of a caught exception, \<^verbatim>\<open>e.what()\<close>.\<close>

fun what :: "cpp_error \<Rightarrow> string" where
  "what (RuntimeError s) = s"
| "what (DomainError s) = s"
| "what OutOfRange = ''vector::_M_range_check''"
| "what (SystemError s) = s"

text \<open>
  The body of the scan at that rank: anything but plain \<^verbatim>\<open>POLLIN\<close> marks the entry as
  ignored and reports the closed connection; otherwise an error frame is read.
\<close>

definition service :: "world \<Rightarrow> pollfd list \<Rightarrow> nat
    \<Rightarrow> (rank_type \<times> string) outcome \<times> pollfd list \<times> world" where
  "service w pfds r =
     (let p = pfds ! r in
      if revents p XOR POLLIN \<noteq> 0 then
        (Returns (r, ''connection with worker has been closed''), pfds[r := p\<lparr>fd := - 1\<rparr>], w)
      else case recv_u64 w (fd p) of
        (Returns error_length, w1) \<Rightarrow>
          (case recv_bytes w1 (fd p) (unat error_length) of
             (Returns bs, w2) \<Rightarrow> (Returns (r, map char_of_byte bs), pfds, w2)
           | (Throws e, w2) \<Rightarrow> (Returns (r, ''recv: '' @ what e), pfds, w2)
           | (Blocks, w2) \<Rightarrow> (Blocks, pfds, w2))
      | (Throws e, w1) \<Rightarrow> (Returns (r, ''recv: '' @ what e), pfds, w1)
      | (Blocks, w1) \<Rightarrow> (Blocks, pfds, w1))"

text \<open>
  The head of \<^verbatim>\<open>recvError\<close>: the array of poll descriptors is built from the sockets
  on the first call and kept from then on; every \<^verbatim>\<open>revents\<close> is set to 0.
\<close>

definition reset_poll_events :: "master \<Rightarrow> pollfd list" where
  "reset_poll_events st =
     map (\<lambda>p. p\<lparr>revents := 0\<rparr>)
       (case poll_events st of
          None \<Rightarrow> map (\<lambda>socket. \<lparr>fd = socket, events = POLLIN, revents = 0\<rparr>) (sockets st)
        | Some pfds \<Rightarrow> pfds)"

text \<open>
  \<^verbatim>\<open>MasterCommandChannel::recvError\<close>. The result is \<open>None\<close> when the script ends while
  the call still waits in \<^verbatim>\<open>poll\<close>; \<open>Blocks\<close> when the call is stuck reading a frame that
  never completes.
\<close>

definition recvError :: "master \<Rightarrow> world \<Rightarrow> wake list
    \<Rightarrow> ((rank_type \<times> string) outcome \<times> master \<times> world \<times> wake list) option" where
  "recvError st w script =
     (case wait_loop (exiting st) w (reset_poll_events st) script of
        None \<Rightarrow> None
      | Some (Exiting, ex, pfds, w1, rest) \<Rightarrow>
          Some (Returns (0, []), st\<lparr>exiting := ex, poll_events := Some pfds\<rparr>, w1, rest)
      | Some (Failed msg, ex, pfds, w1, rest) \<Rightarrow>
          Some (Returns (0, ''poll: '' @ msg),
                st\<lparr>exiting := ex, poll_events := Some pfds\<rparr>, w1, rest)
      | Some (Ready, ex, pfds, w1, rest) \<Rightarrow>
          (case first_ready pfds 0 of
             None \<Rightarrow>
               Some (Returns (0, ''failed to receive error from worker''),
                     st\<lparr>exiting := ex, poll_events := Some pfds\<rparr>, w1, rest)
           | Some r \<Rightarrow>
               (case service w1 pfds r of
                  (res, pfds', w2) \<Rightarrow>
                    Some (res, st\<lparr>exiting := ex, poll_events := Some pfds'\<rparr>, w2, rest))))"

text \<open>\<^verbatim>\<open>std::to_string\<close> of an unsigned value: its decimal digits.\<close>

definition digit_char :: "nat \<Rightarrow> char" where
  "digit_char d = char_of (48 + d)"

fun to_string :: "nat \<Rightarrow> string" where
  "to_string n =
     (if n < 10 then [digit_char n] else to_string (n div 10) @ [digit_char (n mod 10)])"

declare to_string.simps [simp del]

text \<open>The assignment to \<^verbatim>\<open>_error\<close> in \<^verbatim>\<open>errorHandler\<close>.\<close>

definition latch :: "master \<Rightarrow> rank_type \<times> string \<Rightarrow> master" where
  "latch st err =
     st\<lparr>error := Some (''error (rank '' @ to_string (fst err) @ ''): '' @ snd err)\<rparr>"

text \<open>
  One pass through the loop of \<^verbatim>\<open>errorHandler\<close>: \<open>None\<close> when \<^verbatim>\<open>recvError\<close> does not
  return; otherwise whether the thread function returns, and the state it leaves.
\<close>

definition errorHandler_pass :: "master \<Rightarrow> world \<Rightarrow> wake list
    \<Rightarrow> (bool \<times> master \<times> world \<times> wake list) option" where
  "errorHandler_pass st w script =
     (case recvError st w script of
        None \<Rightarrow> None
      | Some (Returns err, st1, w1, rest) \<Rightarrow>
          if exiting st1 then Some (True, st1, w1, rest)
          else Some (False, latch st1 err, w1, rest)
      | Some (Throws e, st1, w1, rest) \<Rightarrow> None
      | Some (Blocks, st1, w1, rest) \<Rightarrow> None)"

text \<open>Every return of the wait loop has consumed at least one return of \<^verbatim>\<open>poll\<close>.\<close>

lemma wait_loop_shorter:
  "wait_loop ex w pfds script = Some (res, ex', pfds', w', rest) \<Longrightarrow> length rest < length script"
proof (induction script arbitrary: ex w pfds)
  case Nil
  then show ?case by simp
next
  case (Cons wk script)
  show ?case
  proof (cases "result wk")
    case (PollThrows msg)
    with Cons.prems show ?thesis by (simp add: Let_def)
  next
    case (PollReturns ret rs)
    with Cons.prems Cons.IH show ?thesis
      by (fastforce simp: Let_def split: if_splits)
  qed
qed

lemma recvError_shorter:
  "recvError st w script = Some (res, st', w', rest) \<Longrightarrow> length rest < length script"
  unfolding recvError_def
  by (auto split: option.splits waited.splits prod.splits dest: wait_loop_shorter)

lemma errorHandler_pass_shorter:
  "errorHandler_pass st w script = Some (b, st', w', rest) \<Longrightarrow> length rest < length script"
  unfolding errorHandler_pass_def
  by (auto split: option.splits outcome.splits prod.splits if_splits dest: recvError_shorter)



text \<open>
  The states of the channel that the same run goes through: the state at each arrival at
  the head of the loop, and the state in which the thread function returns.
\<close>

function errorHandler_states :: "master \<Rightarrow> world \<Rightarrow> wake list \<Rightarrow> master list" where
  "errorHandler_states st w script =
     st # (case errorHandler_pass st w script of
             None \<Rightarrow> []
           | Some (True, st1, w1, rest) \<Rightarrow> [st1]
           | Some (False, st1, w1, rest) \<Rightarrow> errorHandler_states st1 w1 rest)"
  by pat_completeness auto
termination
  by (relation "measure (\<lambda>(st, w, script). length script)")
     (auto dest: errorHandler_pass_shorter)

declare errorHandler_states.simps [simp del]

text \<open>How often a sequence of flag values goes from unset to set.\<close>

fun rises :: "'a option list \<Rightarrow> nat" where
  "rises (None # Some m # xs) = Suc (rises (Some m # xs))"
| "rises (x # y # xs) = rises (y # xs)"
| "rises xs = 0"

section \<open>The worker channel\<close>

record worker =
  worker_rank :: rank_type
  socket :: int
  master_addr :: string
  master_port :: nat

text \<open>
  The constructor; the rank, the address and the port are what \<^verbatim>\<open>load_rank_env\<close> and
  \<^verbatim>\<open>load_worker_env\<close> return.
\<close>

definition WorkerCommandChannel :: "rank_type \<Rightarrow> string \<Rightarrow> nat \<Rightarrow> worker" where
  "WorkerCommandChannel env_rank addr p =
     \<lparr>worker_rank = env_rank, socket = - 1, master_addr = addr, master_port = p\<rparr>"

definition Worker_dtor :: "worker \<Rightarrow> world \<Rightarrow> world" where
  "Worker_dtor wk w =
     (if socket wk \<noteq> - 1 then w\<lparr>trace := trace w @ [EvClose (socket wk)]\<rparr> else w)"

definition Worker_init :: "worker \<Rightarrow> world \<Rightarrow> bool outcome \<times> worker \<times> world" where
  "Worker_init wk w =
     (case connect w of
        (Returns s, w0) \<Rightarrow>
          (let wk0 = wk\<lparr>socket := s\<rparr>
           in case send_rank w0 (socket wk0) (worker_rank wk0) of
             (Returns _, w1) \<Rightarrow>
               (case recv_bytes w1 (socket wk0) 1 of
                  (Returns confirm_byte, w2) \<Rightarrow> (Returns True, wk0, w2)
                | (Throws e, w2) \<Rightarrow> (Throws e, wk0, w2)
                | (Blocks, w2) \<Rightarrow> (Blocks, wk0, w2))
           | (Throws e, w1) \<Rightarrow> (Throws e, wk0, w1)
           | (Blocks, w1) \<Rightarrow> (Blocks, wk0, w1))
      | (Throws e, w0) \<Rightarrow> (Throws e, wk, w0)
      | (Blocks, w0) \<Rightarrow> (Blocks, wk, w0))"


definition Worker_sendError :: "worker \<Rightarrow> world \<Rightarrow> string \<Rightarrow> unit outcome \<times> world" where
  "Worker_sendError wk w err =
     (let error_length = (of_nat (length err) :: 64 word) in
      case send_u64 w (socket wk) error_length of
        (Returns _, w1) \<Rightarrow>
          send_bytes w1 (socket wk) (take (unat error_length) (map byte_of_char err))
      | (Throws e, w1) \<Rightarrow> (Throws e, w1)
      | (Blocks, w1) \<Rightarrow> (Blocks, w1))"

section \<open>Auxiliary notions for the statements\<close>

text \<open>
  For a list of arrivals (descriptor and announced rank): the vector of sockets after the
  accept loop has stored them, the calls the loop has logged, and the handshakes left.
  \<open>accepted\<close> lists the descriptors that a log shows as accepted.
\<close>

definition slotted :: "(int \<times> rank_type) list \<Rightarrow> int list \<Rightarrow> int list" where
  "slotted arr xs = fold (\<lambda>(c, r) ys. ys[r := c]) arr xs"

definition joined :: "(int \<times> rank_type) list \<Rightarrow> int \<Rightarrow> event list" where
  "joined arr lfd = concat (map (\<lambda>(c, r). [EvAccept lfd c, EvRecvRank c r]) arr)"

definition greeted :: "(int \<times> rank_type) list \<Rightarrow> (int \<Rightarrow> rank_type option) \<Rightarrow> (int \<Rightarrow> rank_type option)" where
  "greeted arr h = fold (\<lambda>(c, r) g. g(c := None)) arr h"

fun accepted :: "event list \<Rightarrow> int list" where
  "accepted [] = []"
| "accepted (EvAccept l c # es) = c # accepted es"
| "accepted (_ # es) = accepted es"

fun is_send :: "event \<Rightarrow> bool" where
  "is_send (EvSend s bs) = True"
| "is_send _ = False"

fun is_accept :: "event \<Rightarrow> bool" where
  "is_accept (EvAccept l c) = True"
| "is_accept _ = False"

text \<open>
  For the listener: a logged call that is a \<^verbatim>\<open>poll\<close> with the timeout of the source; a
  rank whose poll descriptor is marked as ignored; a return of \<^verbatim>\<open>poll\<close> that is a mere
  timeout, with no exit requested.
\<close>

fun bounded_poll :: "event \<Rightarrow> bool" where
  "bounded_poll (EvPoll fds t) = (t = 500)"
| "bounded_poll _ = False"

definition excluded :: "nat \<Rightarrow> master \<Rightarrow> bool" where
  "excluded r st =
     (case poll_events st of None \<Rightarrow> False | Some pfds \<Rightarrow> r < length pfds \<and> fd (pfds ! r) < 0)"


section \<open>Example processes\<close>

text \<open>Concrete processes on which the theorems below are instantiated.\<close>

definition quiet_world :: world where
  "quiet_world =
     \<lparr>trace = [], incoming = (\<lambda>s. []), peer_gone = (\<lambda>s. False), listen_fd = 3,
      connect_fd = 3, backlog = [], hello = (\<lambda>s. None)\<rparr>"

definition two_rank_master :: master where
  "two_rank_master = (MasterCommandChannel 29500 2)\<lparr>sockets := [- 1, 7], started := True\<rparr>"

definition joined_worker :: worker where
  "joined_worker = (WorkerCommandChannel 1 ''localhost'' 29500)\<lparr>socket := 3\<rparr>"

definition three_rank_master :: master where
  "three_rank_master =
     (MasterCommandChannel 29500 3)\<lparr>sockets := [- 1, 7, 8], started := True\<rparr>"

text \<open>The worker of rank 2 has sent the error frame of the text \<open>oom\<close>.\<close>

definition oom_world :: world where
  "oom_world =
     quiet_world\<lparr>incoming := (\<lambda>s. [])(8 := [0, 0, 0, 0, 0, 0, 0, 3, 111, 111, 109])\<rparr>"

definition rank2_readable :: wake where
  "rank2_readable = \<lparr>result = PollReturns 1 [0, 0, POLLIN], exit_seen = False\<rparr>"

definition four_rank_master :: master where
  "four_rank_master = MasterCommandChannel 29500 4"

definition reverse_arrivals :: world where
  "reverse_arrivals =
     quiet_world\<lparr>backlog := [4, 5, 6],
                 hello := (\<lambda>s. None)(4 := Some 3, 5 := Some 2, 6 := Some 1)\<rparr>"





definition rank2_hangup :: wake where
  "rank2_hangup = \<lparr>result = PollReturns 1 [0, 0, POLLHUP], exit_seen = False\<rparr>"

definition both_hangup :: wake where
  "both_hangup = \<lparr>result = PollReturns 2 [0, POLLHUP, POLLHUP], exit_seen = False\<rparr>"

definition oom1_world :: world where
  "oom1_world =
     quiet_world\<lparr>incoming := (\<lambda>s. [])(7 := [0, 0, 0, 0, 0, 0, 0, 3, 111, 111, 109])\<rparr>"

definition rank1_readable_rank2_hangup :: wake where
  "rank1_readable_rank2_hangup =
     \<lparr>result = PollReturns 2 [0, POLLIN, POLLHUP], exit_seen = False\<rparr>"

definition rank1_readable :: wake where
  "rank1_readable = \<lparr>result = PollReturns 1 [0, POLLIN, 0], exit_seen = False\<rparr>"




section \<open>Properties of the framing\<close>

lemma length_u64_to_bytes: "length (u64_to_bytes v) = 8"
  by (simp add: u64_to_bytes_def)

lemma push_byte_take_bit:
  "push_bit 8 (take_bit m (drop_bit 8 (v :: 64 word))) OR ucast (ucast v :: byte)
     = take_bit (m + 8) v"
  by (rule bit_eqI) (auto simp: bit_simps)

lemma bytes_to_u64_be_bytes: "bytes_to_u64 (be_bytes k v) = take_bit (8 * k) v"
  by (induction k arbitrary: v) (simp_all add: bytes_to_u64_def push_byte_take_bit add.commute)

lemma u64_to_bytes_be_bytes: "u64_to_bytes v = be_bytes 8 v"
  by (simp add: u64_to_bytes_def eval_nat_numeral)

lemma bytes_to_u64_inverse: "bytes_to_u64 (u64_to_bytes v) = v"
  by (simp add: u64_to_bytes_be_bytes bytes_to_u64_be_bytes take_bit_word_eq_self)

lemma unat_length_u64: "n < 2 ^ 64 \<Longrightarrow> unat (of_nat n :: 64 word) = n"
  by (simp add: unat_of_nat)

lemma sendMessage_Returns:
  assumes "sendMessage w s bytes = (Returns u, w')"
  shows "0 \<le> s \<and> \<not> peer_gone w s \<and>
         w' = w\<lparr>trace := trace w @
                 [EvSend s (u64_to_bytes (of_nat (length bytes))),
                  EvSend s (take (unat (of_nat (length bytes) :: 64 word)) bytes)]\<rparr>"
  using assms
  by (auto simp: sendMessage_def send_u64_def send_bytes_def Let_def split: if_splits)

lemma recv_bytes_ok:
  "0 \<le> s \<Longrightarrow> incoming w s = bs @ rest \<Longrightarrow> length bs = n \<Longrightarrow>
   recv_bytes w s n =
     (Returns bs, w\<lparr>trace := trace w @ [EvRecv s n], incoming := (incoming w)(s := rest)\<rparr>)"
  by (simp add: recv_bytes_def Let_def)

lemma recv_u64_raw:
  assumes "0 \<le> s" "incoming w s = hdr @ rest" "length hdr = 8"
  shows "recv_u64 w s =
     (Returns (bytes_to_u64 hdr),
      w\<lparr>trace := trace w @ [EvRecv s 8], incoming := (incoming w)(s := rest)\<rparr>)"
  using recv_bytes_ok [OF assms] by (simp add: recv_u64_def)

lemma receiveMessage_raw:
  assumes "0 \<le> s" "incoming w s = hdr @ body @ rest" "length hdr = 8"
    and "length body = unat (bytes_to_u64 hdr)"
  shows "receiveMessage w s =
     (Returns body,
      w\<lparr>trace := trace w @ [EvRecv s 8, EvRecv s (length body)],
        incoming := (incoming w)(s := rest)\<rparr>)"
proof -
  let ?w1 = "w\<lparr>trace := trace w @ [EvRecv s 8], incoming := (incoming w)(s := body @ rest)\<rparr>"
  have 1: "recv_u64 w s = (Returns (bytes_to_u64 hdr), ?w1)"
    by (rule recv_u64_raw [OF assms(1) assms(2) assms(3)])
  have 2: "recv_bytes ?w1 s (length body) =
     (Returns body, ?w1\<lparr>trace := trace ?w1 @ [EvRecv s (length body)],
        incoming := (incoming ?w1)(s := rest)\<rparr>)"
    by (rule recv_bytes_ok [OF assms(1)]) simp_all
  show ?thesis
    using 2 by (simp add: receiveMessage_def 1 assms(4) [symmetric])
qed



section \<open>Sending after a failure, sending to a rank that does not exist\<close>

lemma to_string_digit: "n < 10 \<Longrightarrow> to_string n = [digit_char n]"
  by (simp add: to_string.simps)

lemma sendMessage_flag_set:
  "error s = Some m \<Longrightarrow> Master_sendMessage s mw msg dest = (Throws (RuntimeError m), mw)"
  by (simp add: Master_sendMessage_def)

lemma errorHandler_pass_latched:
  assumes "errorHandler_pass st w script = Some (False, st', w', rest)"
  shows "\<exists>r text st1. recvError st w script = Some (Returns (r, text), st1, w', rest)
           \<and> \<not> exiting st1 \<and> st' = latch st1 (r, text)"
  using assms unfolding errorHandler_pass_def
  by (auto split: option.splits outcome.splits prod.splits if_splits)

text \<open>
  C1. In every state in which the failure flag is set, \<^verbatim>\<open>sendMessage\<close> to any rank and
  with any message throws \<^verbatim>\<open>std::runtime_error\<close> with the latched text and leaves the
  outside world as it was: nothing is written. And the text that a pass of the listener
  latches is \<open>error (rank R): text\<close>, for the rank and the text of the report that
  \<^verbatim>\<open>recvError\<close> returned in that pass.
\<close>

theorem circuit_breaker:
  "(error s = Some m \<longrightarrow>
      Master_sendMessage s mw msg dest = (Throws (RuntimeError m), mw))
   \<and> (errorHandler_pass st w script = Some (False, st', w', rest) \<longrightarrow>
      (\<exists>r text st1. recvError st w script = Some (Returns (r, text), st1, w', rest)
         \<and> error st' = Some (''error (rank '' @ to_string r @ ''): '' @ text)))"
proof (intro conjI impI)
  assume "error s = Some m"
  then show "Master_sendMessage s mw msg dest = (Throws (RuntimeError m), mw)"
    by (rule sendMessage_flag_set)
next
  assume "errorHandler_pass st w script = Some (False, st', w', rest)"
  from errorHandler_pass_latched [OF this]
  show "\<exists>r text st1. recvError st w script = Some (Returns (r, text), st1, w', rest)
         \<and> error st' = Some (''error (rank '' @ to_string r @ ''): '' @ text)"
    by (auto simp: latch_def)
qed

text \<open>
  The worker of rank 2 reports \<open>oom\<close>; the listener latches it; a send to rank 1, which
  has nothing to do with the failure, is refused with that text and writes nothing.
\<close>

theorem circuit_breaker_witness:
  "\<exists>st' w'. errorHandler_pass three_rank_master oom_world [rank2_readable]
                = Some (False, st', w', [])
     \<and> error st' = Some ''error (rank 2): oom''
     \<and> trace w' = [EvPoll [- 1, 7, 8] 500, EvRecv 8 8, EvRecv 8 3]
     \<and> (\<exists>r text st1. recvError three_rank_master oom_world [rank2_readable]
                          = Some (Returns (r, text), st1, w', [])
           \<and> error st' = Some (''error (rank '' @ to_string r @ ''): '' @ text))
     \<and> Master_sendMessage st' quiet_world [104, 105] 1
           = (Throws (RuntimeError ''error (rank 2): oom''), quiet_world)"
proof -
  have "map_option (\<lambda>(returned, s, w, rest). (returned, error s, trace w, rest))
      (errorHandler_pass three_rank_master oom_world [rank2_readable])
     = Some (False, Some ''error (rank 2): oom'',
             [EvPoll [- 1, 7, 8] 500, EvRecv 8 8, EvRecv 8 3], [])"
    by (simp add: errorHandler_pass_def recvError_def reset_poll_events_def
        three_rank_master_def MasterCommandChannel_def oom_world_def quiet_world_def
        rank2_readable_def poll_def POLLIN_def service_def recv_u64_def recv_bytes_def
        bytes_to_u64_def latch_def to_string_digit digit_char_def char_of_byte_def Let_def
        char_of_def bit_Suc_0_iff)
  then obtain st' w'
    where pass: "errorHandler_pass three_rank_master oom_world [rank2_readable]
                   = Some (False, st', w', [])"
      and flag: "error st' = Some ''error (rank 2): oom''"
      and log: "trace w' = [EvPoll [- 1, 7, 8] 500, EvRecv 8 8, EvRecv 8 3]"
    by auto
  from circuit_breaker [where s = st' and m = "''error (rank 2): oom''" and mw = quiet_world
      and msg = "[104, 105]" and dest = 1 and st = three_rank_master and w = oom_world
      and script = "[rank2_readable]" and st' = st' and w' = w' and rest = "[]"] flag pass
  have "Master_sendMessage st' quiet_world [104, 105] 1
           = (Throws (RuntimeError ''error (rank 2): oom''), quiet_world)"
    and "\<exists>r text st1. recvError three_rank_master oom_world [rank2_readable]
                          = Some (Returns (r, text), st1, w', [])
           \<and> error st' = Some (''error (rank '' @ to_string r @ ''): '' @ text)"
    by blast+
  with pass flag log show ?thesis by blast
qed

text \<open>
  C6, as the code has it. The flag is tested before the rank. A destination outside the
  open range from 0 to the world size (0, a negative rank, a rank from the world size on,
  within the range of \<^verbatim>\<open>int\<close>) makes \<^verbatim>\<open>sendMessage\<close> throw and write nothing:
  \<^verbatim>\<open>std::domain_error\<close>, which is neither the \<^verbatim>\<open>std::runtime_error\<close> of a channel failure
  nor the \<^verbatim>\<open>std::system_error\<close> of the transport, while the failure flag is not set; the
  latched \<^verbatim>\<open>std::runtime_error\<close> once it is set.
\<close>

theorem invalid_rank_rejected:
  assumes "r \<le> 0 \<or> int (length (sockets st)) \<le> r" and "r < 2 ^ 31"
  shows "Master_sendMessage st w msg r =
           (case error st of
              None \<Rightarrow> Throws (DomainError ''sendMessage received invalid rank as parameter'')
            | Some m \<Rightarrow> Throws (RuntimeError m), w)
         \<and> DomainError ''sendMessage received invalid rank as parameter'' \<noteq> RuntimeError m'
         \<and> DomainError ''sendMessage received invalid rank as parameter'' \<noteq> SystemError m'"
proof -
  have "r \<le> 0 \<or> int (length (sockets st)) \<le> r mod 2 ^ 64"
  proof (cases "r \<le> 0")
    case True
    then show ?thesis by simp
  next
    case False
    with assms(2) have "r mod 2 ^ 64 = r" by simp
    with assms(1) False show ?thesis by simp
  qed
  then show ?thesis
    by (auto simp: Master_sendMessage_def split: option.splits)
qed

theorem invalid_rank_rejected_witness:
  "Master_sendMessage two_rank_master quiet_world [104, 105] 2 =
     (Throws (DomainError ''sendMessage received invalid rank as parameter''), quiet_world)
   \<and> Master_sendMessage two_rank_master quiet_world [104, 105] 0 =
     (Throws (DomainError ''sendMessage received invalid rank as parameter''), quiet_world)
   \<and> Master_sendMessage two_rank_master quiet_world [104, 105] (- 1) =
     (Throws (DomainError ''sendMessage received invalid rank as parameter''), quiet_world)"
proof -
  have flag: "error two_rank_master = None"
    by (simp add: two_rank_master_def MasterCommandChannel_def)
  have size: "int (length (sockets two_rank_master)) = 2"
    by (simp add: two_rank_master_def MasterCommandChannel_def)
  have "(2::int) \<le> 0 \<or> int (length (sockets two_rank_master)) \<le> 2" "(2::int) < 2 ^ 31"
    and "(0::int) \<le> 0 \<or> int (length (sockets two_rank_master)) \<le> 0" "(0::int) < 2 ^ 31"
    and "(- 1::int) \<le> 0 \<or> int (length (sockets two_rank_master)) \<le> - 1" "(- 1::int) < 2 ^ 31"
    by (simp_all add: size)
  then show ?thesis
    using invalid_rank_rejected [of 2 two_rank_master quiet_world "[104, 105]"]
      invalid_rank_rejected [of 0 two_rank_master quiet_world "[104, 105]"]
      invalid_rank_rejected [of "- 1" two_rank_master quiet_world "[104, 105]"]
    by (simp add: flag)
qed

text \<open>
  C6, as the claim has it, fails once the flag is set: the send to rank 0 then throws the
  error of the channel failure, not an error of a kind of its own.
\<close>

theorem invalid_rank_counterexample:
  "Master_sendMessage (latch two_rank_master (1, ''oom'')) quiet_world [104, 105] 0 =
     (Throws (RuntimeError ''error (rank 1): oom''), quiet_world)"
  by (simp add: Master_sendMessage_def latch_def to_string_digit digit_char_def char_of_def
      bit_Suc_0_iff)

section \<open>Setup and teardown\<close>

lemma slotted_Nil [simp]: "slotted [] xs = xs"
  by (simp add: slotted_def)

lemma slotted_Cons [simp]: "slotted ((c, r) # arr) xs = slotted arr (xs[r := c])"
  by (simp add: slotted_def)

lemma joined_Nil [simp]: "joined [] lfd = []"
  by (simp add: joined_def)

lemma joined_Cons [simp]:
  "joined ((c, r) # arr) lfd = EvAccept lfd c # EvRecvRank c r # joined arr lfd"
  by (simp add: joined_def)

lemma greeted_Nil [simp]: "greeted [] h = h"
  by (simp add: greeted_def)

lemma greeted_Cons [simp]: "greeted ((c, r) # arr) h = greeted arr (h(c := None))"
  by (simp add: greeted_def)

lemma length_slotted [simp]: "length (slotted arr xs) = length xs"
  by (induction arr arbitrary: xs) auto

lemma accept_pass:
  assumes "sockets st ! 0 = listen_fd w" "backlog w = c # cs" "hello w c = Some r"
  shows "accept_loop (Suc k) st w =
     (let w2 = w\<lparr>backlog := cs, trace := trace w @ [EvAccept (listen_fd w) c, EvRecvRank c r],
                  hello := (hello w)(c := None)\<rparr>
      in if r < length (sockets st)
         then accept_loop k (st\<lparr>sockets := (sockets st)[r := c]\<rparr>) w2
         else (Throws OutOfRange, st, w2))"
  using assms by (simp add: accept_def recv_rank_def Let_def)

lemma accept_loop_joined:
  assumes "sockets st ! 0 = listen_fd w"
    and "backlog w = map fst arr @ later"
    and "\<forall>(c, r) \<in> set arr. hello w c = Some r \<and> 0 < r \<and> r < length (sockets st)"
    and "distinct (map fst arr)"
  shows "accept_loop (length arr) st w =
     (Returns (), st\<lparr>sockets := slotted arr (sockets st)\<rparr>,
      w\<lparr>backlog := later, trace := trace w @ joined arr (listen_fd w),
        hello := greeted arr (hello w)\<rparr>)"
  using assms
proof (induction arr arbitrary: st w)
  case Nil
  then show ?case by simp
next
  case (Cons a arr)
  obtain c r where a: "a = (c, r)" by (cases a)
  let ?w2 = "w\<lparr>backlog := map fst arr @ later,
                trace := trace w @ [EvAccept (listen_fd w) c, EvRecvRank c r],
                hello := (hello w)(c := None)\<rparr>"
  let ?st2 = "st\<lparr>sockets := (sockets st)[r := c]\<rparr>"
  from Cons.prems a have r: "0 < r" "r < length (sockets st)" and h: "hello w c = Some r"
    by auto
  have step: "accept_loop (length (a # arr)) st w = accept_loop (length arr) ?st2 ?w2"
    using accept_pass [of st w c "map fst arr @ later" r "length arr"] Cons.prems a r h
    by (simp add: Let_def)
  have "accept_loop (length arr) ?st2 ?w2 =
     (Returns (), ?st2\<lparr>sockets := slotted arr (sockets ?st2)\<rparr>,
      ?w2\<lparr>backlog := later, trace := trace ?w2 @ joined arr (listen_fd ?w2),
        hello := greeted arr (hello ?w2)\<rparr>)"
  proof (rule Cons.IH)
    show "sockets ?st2 ! 0 = listen_fd ?w2"
      using Cons.prems(1) r by simp
    show "backlog ?w2 = map fst arr @ later" by simp
    show "\<forall>(c', r') \<in> set arr. hello ?w2 c' = Some r' \<and> 0 < r' \<and> r' < length (sockets ?st2)"
    proof clarify
      fix c' r'
      assume member: "(c', r') \<in> set arr"
      then have "c' \<in> fst ` set arr" by force
      with Cons.prems(4) a have "c' \<noteq> c" by auto
      moreover from member Cons.prems(3)
      have "hello w c' = Some r' \<and> 0 < r' \<and> r' < length (sockets st)" by auto
      ultimately
      show "hello ?w2 c' = Some r' \<and> 0 < r' \<and> r' < length (sockets ?st2)" by simp
    qed
    show "distinct (map fst arr)"
      using Cons.prems(4) by simp
  qed
  with step show ?case
    by (simp add: a)
qed

lemma slotted_other:
  "j \<notin> snd ` set arr \<Longrightarrow> slotted arr xs ! j = xs ! j"
  by (induction arr arbitrary: xs) (auto simp: nth_list_update)

lemma slotted_rank:
  assumes "(c, r) \<in> set arr" "distinct (map snd arr)" "r < length xs"
  shows "slotted arr xs ! r = c"
  using assms
proof (induction arr arbitrary: xs)
  case Nil
  then show ?case by simp
next
  case (Cons a arr)
  obtain c' r' where a: "a = (c', r')" by (cases a)
  show ?case
  proof (cases "(c, r) = a")
    case True
    with Cons.prems a have "r \<notin> snd ` set arr" by auto
    with True a Cons.prems(3) show ?thesis
      by (simp add: slotted_other)
  next
    case False
    with Cons.prems a show ?thesis
      by (auto intro: Cons.IH)
  qed
qed

lemma confirm_loop_ok:
  "\<forall>s \<in> set ss. 0 \<le> s \<and> \<not> peer_gone w s \<Longrightarrow>
   confirm_loop ss w = (Returns (), w\<lparr>trace := trace w @ map (\<lambda>s. EvSend s [1]) ss\<rparr>)"
  by (induction ss arbitrary: w) (auto simp: send_bytes_def)

lemma ranks_onto:
  assumes "distinct (map snd arr)" "\<forall>r \<in> snd ` set arr. 0 < r \<and> r \<le> length arr"
  shows "snd ` set arr = {1..length arr}"
proof (rule card_subset_eq)
  show "finite {1..length arr}" by simp
  show "snd ` set arr \<subseteq> {1..length arr}" using assms(2) by auto
  have "card (snd ` set arr) = length (map snd arr)"
    using distinct_card [OF assms(1)] by simp
  then show "card (snd ` set arr) = card {1..length arr}" by simp
qed

lemma tl_as_map: "tl ys = map (\<lambda>j. ys ! j) [1..<length ys]"
  by (cases ys) (auto simp: nth_equalityI map_upt_Suc simp del: upt_Suc)

lemma set_tl_slotted:
  assumes "length xs = Suc (length arr)"
    and "distinct (map snd arr)" "\<forall>r \<in> snd ` set arr. 0 < r \<and> r \<le> length arr"
  shows "set (tl (slotted arr xs)) = fst ` set arr"
proof -
  let ?ys = "slotted arr xs"
  have onto: "snd ` set arr = {1..length arr}"
    by (rule ranks_onto [OF assms(2,3)])
  have slot: "?ys ! r = c" if "(c, r) \<in> set arr" for c r
  proof -
    from that assms(3) have "r \<le> length arr" by force
    with assms(1) have "r < length xs" by simp
    from slotted_rank [OF that assms(2) this] show ?thesis .
  qed
  have "{1..<length ?ys} = {1..length arr}"
    using assms(1) by auto
  then have "set (tl ?ys) = (\<lambda>j. ?ys ! j) ` {1..length arr}"
    by (simp only: tl_as_map [of ?ys] set_map set_upt)
  also have "\<dots> = (\<lambda>j. ?ys ! j) ` snd ` set arr"
    by (simp only: onto)
  also have "\<dots> = fst ` set arr"
  proof (rule set_eqI)
    fix c
    show "c \<in> (\<lambda>j. ?ys ! j) ` snd ` set arr \<longleftrightarrow> c \<in> fst ` set arr"
    proof
      assume "c \<in> (\<lambda>j. ?ys ! j) ` snd ` set arr"
      then obtain c' r where "(c', r) \<in> set arr" "c = ?ys ! r" by auto
      with slot [of c' r] show "c \<in> fst ` set arr" by force
    next
      assume "c \<in> fst ` set arr"
      then obtain r where "(c, r) \<in> set arr" by auto
      with slot [of c r] show "c \<in> (\<lambda>j. ?ys ! j) ` snd ` set arr" by force
    qed
  qed
  finally show ?thesis .
qed

lemma distinct_tl_slotted:
  assumes "length xs = Suc (length arr)"
    and "distinct (map snd arr)" "\<forall>r \<in> snd ` set arr. 0 < r \<and> r \<le> length arr"
    and "distinct (map fst arr)"
  shows "distinct (tl (slotted arr xs))"
proof (rule card_distinct)
  have "card (set (tl (slotted arr xs))) = card (fst ` set arr)"
    by (simp only: set_tl_slotted [OF assms(1,2,3)])
  also have "\<dots> = length (map fst arr)"
    using distinct_card [OF assms(4)] by simp
  finally show "card (set (tl (slotted arr xs))) = length (tl (slotted arr xs))"
    using assms(1) by simp
qed

lemma Master_init_joined:
  assumes size: "length (sockets st) = Suc (length arr)"
    and backlog: "backlog w = map fst arr @ later"
    and hello: "\<forall>(c, r) \<in> set arr. hello w c = Some r"
    and ranks: "distinct (map snd arr)" "\<forall>r \<in> snd ` set arr. 0 < r \<and> r \<le> length arr"
    and conns: "distinct (map fst arr)" "\<forall>c \<in> fst ` set arr. 0 \<le> c \<and> \<not> peer_gone w c"
    and listening: "0 \<le> listen_fd w"
  shows "\<exists>st' w'. Master_init st w = (Returns True, st', w')
     \<and> sockets st' = (slotted arr ((sockets st)[0 := listen_fd w]))[0 := - 1]
     \<and> started st' \<and> error st' = error st \<and> exiting st' = exiting st
     \<and> trace w' = trace w @ [EvListen (port st) (listen_fd w)] @ joined arr (listen_fd w) @
          map (\<lambda>s. EvSend s [1]) (tl (slotted arr ((sockets st)[0 := listen_fd w]))) @
          [EvClose (listen_fd w), EvSpawn]"
proof -
  let ?w0 = "w\<lparr>trace := trace w @ [EvListen (port st) (listen_fd w)]\<rparr>"
  let ?st0 = "st\<lparr>sockets := (sockets st)[0 := listen_fd w]\<rparr>"
  let ?ys = "slotted arr ((sockets st)[0 := listen_fd w])"
  let ?w1 = "?w0\<lparr>backlog := later, trace := trace ?w0 @ joined arr (listen_fd ?w0),
        hello := greeted arr (hello ?w0)\<rparr>"
  have "accept_loop (length arr) ?st0 ?w0 =
      (Returns (), ?st0\<lparr>sockets := slotted arr (sockets ?st0)\<rparr>, ?w1)"
  proof (rule accept_loop_joined)
    show "sockets ?st0 ! 0 = listen_fd ?w0" using size by simp
    show "backlog ?w0 = map fst arr @ later" using backlog by simp
    show "\<forall>(c, r) \<in> set arr. hello ?w0 c = Some r \<and> 0 < r \<and> r < length (sockets ?st0)"
      using hello ranks(2) size by force
    show "distinct (map fst arr)" by (rule conns(1))
  qed
  then have loop1: "accept_loop (length arr) ?st0 ?w0 = (Returns (), st\<lparr>sockets := ?ys\<rparr>, ?w1)"
    by simp
  have sets: "set (tl ?ys) = fst ` set arr"
    by (rule set_tl_slotted) (use size ranks in simp_all)
  have head: "?ys ! 0 = listen_fd w"
  proof -
    have "0 \<notin> snd ` set arr" using ranks(2) by auto
    from slotted_other [OF this] size show ?thesis by simp
  qed
  show ?thesis
    unfolding Master_init_def listen_def
    using conns(2) sets listening by (simp add: Let_def size loop1 confirm_loop_ok head)
qed

lemma sent_to_quiet: "\<forall>e \<in> set es. \<not> is_send e \<Longrightarrow> sent_to c es = []"
  by (induction c es rule: sent_to.induct) simp_all

lemma accepted_quiet: "\<forall>e \<in> set es. \<not> is_accept e \<Longrightarrow> accepted es = []"
  by (induction es rule: accepted.induct) simp_all

lemma accepted_append: "accepted (xs @ ys) = accepted xs @ accepted ys"
  by (induction xs rule: accepted.induct) simp_all

lemma accepted_joined: "accepted (joined arr l) = map fst arr"
  by (induction arr) auto

lemma joined_quiet: "e \<in> set (joined arr l) \<Longrightarrow> \<not> is_send e"
  by (induction arr) auto

lemma Worker_init_needs_byte:
  assumes "fst (Worker_init wk ww) = Returns True"
  shows "incoming ww (connect_fd ww) \<noteq> []"
proof
  assume "incoming ww (connect_fd ww) = []"
  then have "fst (Worker_init wk ww) \<noteq> Returns True"
    by (simp add: Worker_init_def connect_def send_rank_def recv_bytes_def Let_def)
  with assms show False by simp
qed

lemma barrier_prefix_gen:
  assumes quietA: "\<forall>e \<in> set A. \<not> is_send e" and quietB: "\<forall>e \<in> set B. \<not> is_accept e"
    and sent: "sent_to c (take k (A @ B)) \<noteq> []"
  shows "accepted (take k (A @ B)) = accepted A"
proof -
  have k: "length A < k"
  proof (rule ccontr)
    assume "\<not> length A < k"
    then have "take k (A @ B) = take k A" by simp
    moreover have "\<forall>e \<in> set (take k A). \<not> is_send e"
      using quietA by (meson in_set_takeD)
    ultimately have "sent_to c (take k (A @ B)) = []"
      by (simp only: sent_to_quiet)
    with sent show False by simp
  qed
  have "\<forall>e \<in> set (take (k - length A) B). \<not> is_accept e"
    using quietB by (meson in_set_takeD)
  then have "accepted (take (k - length A) B) = []"
    by (rule accepted_quiet)
  moreover from k have "take k (A @ B) = A @ take (k - length A) B"
    by simp
  ultimately show ?thesis
    by (simp only: accepted_append) simp
qed

lemma barrier_prefix:
  assumes "sent_to c (take k (EvListen p l # joined arr l @ map (\<lambda>s. EvSend s [1]) ss @ [EvClose l, EvSpawn])) \<noteq> []"
  shows "accepted (take k (EvListen p l # joined arr l @ map (\<lambda>s. EvSend s [1]) ss @ [EvClose l, EvSpawn]))
           = map fst arr"
proof -
  let ?A = "EvListen p l # joined arr l"
  let ?B = "map (\<lambda>s. EvSend s [1]) ss @ [EvClose l, EvSpawn]"
  have "\<forall>e \<in> set ?A. \<not> is_send e"
    by (auto dest: joined_quiet)
  moreover have "\<forall>e \<in> set ?B. \<not> is_accept e" by auto
  moreover from assms have "sent_to c (take k (?A @ ?B)) \<noteq> []" by simp
  ultimately have "accepted (take k (?A @ ?B)) = accepted ?A"
    by (rule barrier_prefix_gen)
  then show ?thesis
    by (simp add: accepted_joined)
qed

lemma sent_to_append: "sent_to c (xs @ ys) = sent_to c xs @ sent_to c ys"
  by (induction c xs rule: sent_to.induct) simp_all

lemma sent_to_confirm_other:
  "c \<notin> set ss \<Longrightarrow> sent_to c (map (\<lambda>s. EvSend s [1]) ss) = []"
  by (induction ss) auto

lemma sent_to_confirm:
  "distinct ss \<Longrightarrow> c \<in> set ss \<Longrightarrow> sent_to c (map (\<lambda>s. EvSend s [1]) ss) = [1]"
  by (induction ss) (auto simp: sent_to_confirm_other)

lemma Worker_init_released:
  assumes "0 \<le> connect_fd ww" "\<not> peer_gone ww (connect_fd ww)"
    and "incoming ww (connect_fd ww) = [1]"
  shows "fst (Worker_init wk ww) = Returns True"
  using assms
  by (simp add: Worker_init_def connect_def send_rank_def recv_bytes_def Let_def)

text \<open>
  C2. The workers connect in any order: \<open>arr\<close> lists, in the order of arrival, the
  descriptor of each connection with the rank its peer announces, every rank from 1 to
  the number of workers once. Then \<^verbatim>\<open>init\<close> returns, and

  \<^item> each connection sits in the slot of the rank it announced, wherever it stood in the
    order of arrival;
  \<^item> the calls that \<^verbatim>\<open>init\<close> makes are, in this order: \<^verbatim>\<open>listen\<close>; for every arrival
    the \<^verbatim>\<open>accept\<close> and the read of the rank; then one confirmation byte written to the
    connection of each slot from 1 on; then the close of the listening socket and the
    start of the listener thread;
  \<^item> so every worker connection is sent the one byte \<open>1\<close> and nothing else, and a worker
    whose connection delivers what the master wrote to it returns from its own
    \<^verbatim>\<open>init\<close>;
  \<^item> and at any moment of the setup (any prefix of the calls that \<^verbatim>\<open>init\<close> makes) at
    which a worker has received what lets its own \<^verbatim>\<open>init\<close> return, the master has
    accepted every one of the connections.
\<close>

theorem init_barrier:
  assumes size: "length (sockets st) = Suc (length arr)"
    and backlog: "backlog w = map fst arr @ later"
    and hello: "\<forall>(c, r) \<in> set arr. hello w c = Some r"
    and ranks: "distinct (map snd arr)" "\<forall>r \<in> snd ` set arr. 0 < r \<and> r \<le> length arr"
    and conns: "distinct (map fst arr)" "\<forall>c \<in> fst ` set arr. 0 \<le> c \<and> \<not> peer_gone w c"
    and listening: "0 \<le> listen_fd w"
  shows "\<exists>st' w'. Master_init st w = (Returns True, st', w')
     \<and> (\<forall>(c, r) \<in> set arr. sockets st' ! r = c)
     \<and> length (sockets st') = length (sockets st)
     \<and> drop (length (trace w)) (trace w') =
          EvListen (port st) (listen_fd w) # joined arr (listen_fd w) @
          map (\<lambda>s. EvSend s [1]) (tl (sockets st')) @ [EvClose (listen_fd w), EvSpawn]
     \<and> (\<forall>(c, r) \<in> set arr. sent_to c (drop (length (trace w)) (trace w')) = [1])
     \<and> (\<forall>(c, r) \<in> set arr. \<forall>wk ww.
           0 \<le> connect_fd ww \<and> \<not> peer_gone ww (connect_fd ww)
           \<and> incoming ww (connect_fd ww) = sent_to c (drop (length (trace w)) (trace w'))
           \<longrightarrow> fst (Worker_init wk ww) = Returns True)
     \<and> (\<forall>k c wk ww.
           incoming ww (connect_fd ww) = sent_to c (take k (drop (length (trace w)) (trace w')))
           \<and> fst (Worker_init wk ww) = Returns True
           \<longrightarrow> accepted (take k (drop (length (trace w)) (trace w'))) = map fst arr)"
proof -
  let ?ys = "slotted arr ((sockets st)[0 := listen_fd w])"
  let ?new = "EvListen (port st) (listen_fd w) # joined arr (listen_fd w) @
          map (\<lambda>s. EvSend s [1]) (tl ?ys) @ [EvClose (listen_fd w), EvSpawn]"
  from Master_init_joined [OF assms] obtain st' w'
    where init: "Master_init st w = (Returns True, st', w')"
      and slots: "sockets st' = ?ys[0 := - 1]"
      and log: "trace w' = trace w @ ?new"
    by auto
  have tail: "tl (sockets st') = tl ?ys"
    by (cases ?ys) (simp_all add: slots)
  have new: "drop (length (trace w)) (trace w') = ?new"
    by (simp add: log)
  have members: "set (tl ?ys) = fst ` set arr"
    by (rule set_tl_slotted) (use size ranks in simp_all)
  have apart: "distinct (tl ?ys)"
    by (rule distinct_tl_slotted) (use size ranks conns(1) in simp_all)
  have one: "sent_to c ?new = [1]" if "(c, r) \<in> set arr" for c r
  proof -
    from that members have "c \<in> set (tl ?ys)" by force
    from sent_to_confirm [OF apart this]
    have "sent_to c (map (\<lambda>s. EvSend s [1]) (tl ?ys)) = [1]" .
    moreover have "sent_to c (joined arr (listen_fd w)) = []"
      by (rule sent_to_quiet) (auto dest: joined_quiet)
    ultimately show ?thesis
      by (simp add: sent_to_append)
  qed
  have "\<forall>(c, r) \<in> set arr. sockets st' ! r = c"
  proof clarify
    fix c r
    assume member: "(c, r) \<in> set arr"
    with ranks(2) have r: "0 < r" "r \<le> length arr" by force+
    with size have "r < length ((sockets st)[0 := listen_fd w])" by simp
    from slotted_rank [OF member ranks(1) this] r slots
    show "sockets st' ! r = c" by simp
  qed
  moreover have "length (sockets st') = length (sockets st)"
    by (simp add: slots)
  moreover have "drop (length (trace w)) (trace w') =
          EvListen (port st) (listen_fd w) # joined arr (listen_fd w) @
          map (\<lambda>s. EvSend s [1]) (tl (sockets st')) @ [EvClose (listen_fd w), EvSpawn]"
    by (simp only: new tail)
  moreover have "\<forall>(c, r) \<in> set arr. sent_to c (drop (length (trace w)) (trace w')) = [1]"
    using one by (auto simp only: new)
  moreover have "\<forall>(c, r) \<in> set arr. \<forall>wk ww.
           0 \<le> connect_fd ww \<and> \<not> peer_gone ww (connect_fd ww)
           \<and> incoming ww (connect_fd ww) = sent_to c (drop (length (trace w)) (trace w'))
           \<longrightarrow> fst (Worker_init wk ww) = Returns True"
  proof clarify
    fix c r wk and ww :: world
    assume member: "(c, r) \<in> set arr"
      and alive: "0 \<le> connect_fd ww" "\<not> peer_gone ww (connect_fd ww)"
      and "incoming ww (connect_fd ww) = sent_to c (drop (length (trace w)) (trace w'))"
    with one [of c r] new have "incoming ww (connect_fd ww) = [1]" by simp
    from Worker_init_released [OF alive this]
    show "fst (Worker_init wk ww) = Returns True" .
  qed
  moreover have "accepted (take k (drop (length (trace w)) (trace w'))) = map fst arr"
    if "incoming ww (connect_fd ww) = sent_to c (take k (drop (length (trace w)) (trace w')))"
      and "fst (Worker_init wk ww) = Returns True" for k c wk ww
  proof -
    from that have "sent_to c (take k ?new) \<noteq> []"
      using Worker_init_needs_byte [of wk ww] by (simp add: log)
    from barrier_prefix [OF this] show ?thesis by (simp add: log)
  qed
  ultimately show ?thesis
    using init by blast
qed

lemma accept_loop_numeral:
  "accept_loop (numeral n) st w = accept_loop (Suc (pred_numeral n)) st w"
  by (simp add: numeral_eq_Suc)

lemma replicate_4: "replicate 4 x = [x, x, x, x]"
  by (simp add: eval_nat_numeral)

lemma Master_init_reverse:
  "(case Master_init four_rank_master reverse_arrivals of
      (res, st, w) \<Rightarrow> (res, sockets st, trace w)) =
   (Returns True, [- 1, 6, 5, 4],
    [EvListen 29500 3, EvAccept 3 4, EvRecvRank 4 3, EvAccept 3 5, EvRecvRank 5 2,
     EvAccept 3 6, EvRecvRank 6 1, EvSend 6 [1], EvSend 5 [1], EvSend 4 [1],
     EvClose 3, EvSpawn])"
  by (simp add: Master_init_def four_rank_master_def MasterCommandChannel_def
      reverse_arrivals_def quiet_world_def listen_def accept_def recv_rank_def send_bytes_def
      replicate_4 accept_loop_numeral Let_def)

theorem init_barrier_witness:
  "(case Master_init four_rank_master reverse_arrivals of
      (res, st, w) \<Rightarrow> (res, sockets st ! 1, sockets st ! 2, sockets st ! 3, trace w)) =
   (Returns True, 6, 5, 4,
    [EvListen 29500 3, EvAccept 3 4, EvRecvRank 4 3, EvAccept 3 5, EvRecvRank 5 2,
     EvAccept 3 6, EvRecvRank 6 1, EvSend 6 [1], EvSend 5 [1], EvSend 4 [1],
     EvClose 3, EvSpawn])
   \<and> map (\<lambda>c. sent_to c (trace (snd (snd (Master_init four_rank_master reverse_arrivals)))))
        [4, 5, 6] = [[1], [1], [1]]
   \<and> fst (Worker_init (WorkerCommandChannel 1 ''localhost'' 29500) quiet_world) = Blocks
   \<and> fst (Worker_init (WorkerCommandChannel 1 ''localhost'' 29500)
        (quiet_world\<lparr>incoming := (\<lambda>s. [])(3 := [1])\<rparr>)) = Returns True
   \<and> accepted (take 8
        [EvListen 29500 3, EvAccept 3 4, EvRecvRank 4 3, EvAccept 3 5, EvRecvRank 5 2,
         EvAccept 3 6, EvRecvRank 6 1, EvSend 6 [1], EvSend 5 [1], EvSend 4 [1],
         EvClose 3, EvSpawn]) = [4, 5, 6]"
proof -
  let ?arr = "[(4, 3), (5, 2), (6, 1)] :: (int \<times> rank_type) list"
  let ?log = "[EvListen 29500 3, EvAccept 3 4, EvRecvRank 4 3, EvAccept 3 5, EvRecvRank 5 2,
     EvAccept 3 6, EvRecvRank 6 1, EvSend 6 [1], EvSend 5 [1], EvSend 4 [1],
     EvClose 3, EvSpawn]"
  let ?wk = "WorkerCommandChannel 1 ''localhost'' 29500"
  let ?ww = "quiet_world\<lparr>incoming := (\<lambda>s. [])(3 := [1])\<rparr>"
  have size: "length (sockets four_rank_master) = Suc (length ?arr)"
    by (simp add: four_rank_master_def MasterCommandChannel_def replicate_4)
  have backlog: "backlog reverse_arrivals = map fst ?arr @ []"
    by (simp add: reverse_arrivals_def)
  have hello: "\<forall>(c, r) \<in> set ?arr. hello reverse_arrivals c = Some r"
    by (simp add: reverse_arrivals_def)
  have ranks: "distinct (map snd ?arr)" "\<forall>r \<in> snd ` set ?arr. 0 < r \<and> r \<le> length ?arr"
    by simp_all
  have conns: "distinct (map fst ?arr)"
    "\<forall>c \<in> fst ` set ?arr. 0 \<le> c \<and> \<not> peer_gone reverse_arrivals c"
    by (simp_all add: reverse_arrivals_def quiet_world_def)
  have listening: "0 \<le> listen_fd reverse_arrivals"
    by (simp add: reverse_arrivals_def quiet_world_def)
  have start: "trace reverse_arrivals = []"
    by (simp add: reverse_arrivals_def quiet_world_def)
  have blocked: "fst (Worker_init ?wk quiet_world) = Blocks"
    by (simp add: Worker_init_def WorkerCommandChannel_def quiet_world_def connect_def
        send_rank_def recv_bytes_def Let_def)
  from init_barrier [OF size backlog hello ranks conns listening] obtain st' w'
    where init: "Master_init four_rank_master reverse_arrivals = (Returns True, st', w')"
      and slots: "\<forall>(c, r) \<in> set ?arr. sockets st' ! r = c"
      and log: "drop (length (trace reverse_arrivals)) (trace w') =
          EvListen (port four_rank_master) (listen_fd reverse_arrivals) #
          joined ?arr (listen_fd reverse_arrivals) @
          map (\<lambda>s. EvSend s [1]) (tl (sockets st')) @
          [EvClose (listen_fd reverse_arrivals), EvSpawn]"
      and confirmed: "\<forall>(c, r) \<in> set ?arr.
           sent_to c (drop (length (trace reverse_arrivals)) (trace w')) = [1]"
      and release: "\<forall>(c, r) \<in> set ?arr. \<forall>wk ww.
           0 \<le> connect_fd ww \<and> \<not> peer_gone ww (connect_fd ww)
           \<and> incoming ww (connect_fd ww)
               = sent_to c (drop (length (trace reverse_arrivals)) (trace w'))
           \<longrightarrow> fst (Worker_init wk ww) = Returns True"
      and barrier: "\<forall>k c wk ww.
           incoming ww (connect_fd ww)
             = sent_to c (take k (drop (length (trace reverse_arrivals)) (trace w')))
           \<and> fst (Worker_init wk ww) = Returns True
           \<longrightarrow> accepted (take k (drop (length (trace reverse_arrivals)) (trace w')))
                 = map fst ?arr"
    by blast
  from slots have stored: "sockets st' ! 1 = 6" "sockets st' ! 2 = 5" "sockets st' ! 3 = 4"
    by simp_all
  from init Master_init_reverse have table: "sockets st' = [- 1, 6, 5, 4]"
    by simp
  from log have whole: "trace w' = ?log"
    by (simp add: start table four_rank_master_def MasterCommandChannel_def
        reverse_arrivals_def quiet_world_def)
  from confirmed
  have bytes: "map (\<lambda>c. sent_to c (trace w')) [4, 5, 6] = [[1], [1], [1]]"
    by (simp add: start)
  from confirmed have "sent_to 6 (drop (length (trace reverse_arrivals)) (trace w')) = [1]"
    by simp
  then have "0 \<le> connect_fd ?ww \<and> \<not> peer_gone ?ww (connect_fd ?ww)
      \<and> incoming ?ww (connect_fd ?ww)
          = sent_to 6 (drop (length (trace reverse_arrivals)) (trace w'))"
    by (simp add: quiet_world_def)
  with release have released: "fst (Worker_init ?wk ?ww) = Returns True"
    by simp
  have "incoming ?ww (connect_fd ?ww) = sent_to 6 (take 8 ?log)"
    by (simp add: quiet_world_def)
  with barrier [rule_format, of ?ww 6 8 ?wk] released
  have "accepted (take 8 ?log) = [4, 5, 6]"
    by (simp add: whole start)
  moreover
  from init whole stored
  have "(case Master_init four_rank_master reverse_arrivals of
      (res, st, w) \<Rightarrow> (res, sockets st ! 1, sockets st ! 2, sockets st ! 3, trace w)) =
   (Returns True, 6, 5, 4, ?log)"
    by simp
  moreover
  from init bytes
  have "map (\<lambda>c. sent_to c (trace (snd (snd (Master_init four_rank_master reverse_arrivals)))))
        [4, 5, 6] = [[1], [1], [1]]"
    by simp
  ultimately show ?thesis
    using blocked released by blast
qed



lemma count_list_closes:
  "distinct xs \<Longrightarrow> count_list (map EvClose xs) (EvClose d) = (if d \<in> set xs then 1 else 0)"
  by (induction xs) auto

lemma Master_dtor_trace:
  "trace (snd (Master_dtor st w)) =
     trace w @ EvSetExiting # (if started st then [EvJoin] else []) @
       map EvClose (filter (\<lambda>s. s \<noteq> - 1) (sockets st))"
  by (simp add: Master_dtor_def Let_def)

text \<open>
  C7. The destructor of the master sets the exit flag first, joins the listener thread if
  one was started, and then closes the descriptor of every slot that holds one, once: the
  slots of a channel hold different descriptors, so no descriptor is closed twice, and a
  slot at \<open>-1\<close> (the listening socket after the setup, any slot before it) is not closed.
  The destructor of a worker that never ran \<^verbatim>\<open>init\<close> closes nothing; after \<^verbatim>\<open>init\<close> it
  closes the one connection once.
\<close>

theorem teardown_closes_once:
  assumes "distinct (filter (\<lambda>s. s \<noteq> - 1) (sockets st))"
  shows "trace (snd (Master_dtor st w)) =
           trace w @ EvSetExiting # (if started st then [EvJoin] else []) @
             map EvClose (filter (\<lambda>s. s \<noteq> - 1) (sockets st))
       \<and> exiting (fst (Master_dtor st w))
       \<and> (\<forall>d. count_list (drop (length (trace w)) (trace (snd (Master_dtor st w)))) (EvClose d)
              = (if d \<in> set (sockets st) \<and> d \<noteq> - 1 then 1 else 0))
       \<and> Worker_dtor (WorkerCommandChannel r a p) ww = ww
       \<and> (socket wk \<noteq> - 1 \<longrightarrow>
            Worker_dtor wk ww = ww\<lparr>trace := trace ww @ [EvClose (socket wk)]\<rparr>)"
proof (intro conjI allI impI)
  show "trace (snd (Master_dtor st w)) =
           trace w @ EvSetExiting # (if started st then [EvJoin] else []) @
             map EvClose (filter (\<lambda>s. s \<noteq> - 1) (sockets st))"
    by (rule Master_dtor_trace)
  show "exiting (fst (Master_dtor st w))"
    by (simp add: Master_dtor_def Let_def)
  show "count_list (drop (length (trace w)) (trace (snd (Master_dtor st w)))) (EvClose d)
              = (if d \<in> set (sockets st) \<and> d \<noteq> - 1 then 1 else 0)" for d
    using count_list_closes [OF assms, of d]
    by (simp add: Master_dtor_trace)
  show "Worker_dtor (WorkerCommandChannel r a p) ww = ww"
    by (simp add: Worker_dtor_def WorkerCommandChannel_def)
  show "Worker_dtor wk ww = ww\<lparr>trace := trace ww @ [EvClose (socket wk)]\<rparr>"
    if "socket wk \<noteq> - 1"
    using that by (simp add: Worker_dtor_def)
qed

theorem teardown_closes_once_witness:
  "trace (snd (Master_dtor three_rank_master quiet_world)) =
      [EvSetExiting, EvJoin, EvClose 7, EvClose 8]
   \<and> trace (snd (Master_dtor (MasterCommandChannel 29500 3) quiet_world)) = [EvSetExiting]
   \<and> Worker_dtor (WorkerCommandChannel 1 ''localhost'' 29500) quiet_world = quiet_world
   \<and> Worker_dtor joined_worker quiet_world = quiet_world\<lparr>trace := trace quiet_world @ [EvClose 3]\<rparr>"
proof -
  have s3: "sockets three_rank_master = [- 1, 7, 8]" "started three_rank_master"
    by (simp_all add: three_rank_master_def)
  have s0: "sockets (MasterCommandChannel 29500 3) = replicate 3 (- 1)"
    "\<not> started (MasterCommandChannel 29500 3)"
    by (simp_all add: MasterCommandChannel_def)
  have d3: "distinct (filter (\<lambda>s. s \<noteq> - 1) (sockets three_rank_master))"
    by (simp add: s3)
  have d0: "distinct (filter (\<lambda>s. s \<noteq> - 1) (sockets (MasterCommandChannel 29500 3)))"
    by (simp add: s0)
  have j: "socket joined_worker \<noteq> - 1" "socket joined_worker = 3"
    by (simp_all add: joined_worker_def)
  have q: "trace quiet_world = []"
    by (simp add: quiet_world_def)
  from teardown_closes_once [OF d3, of quiet_world 1 "''localhost''" 29500 quiet_world joined_worker] j
  have "trace (snd (Master_dtor three_rank_master quiet_world)) =
      [EvSetExiting, EvJoin, EvClose 7, EvClose 8]"
    and "Worker_dtor (WorkerCommandChannel 1 ''localhost'' 29500) quiet_world = quiet_world"
    and "Worker_dtor joined_worker quiet_world = quiet_world\<lparr>trace := trace quiet_world @ [EvClose 3]\<rparr>"
    by (simp_all add: s3 q)
  moreover from teardown_closes_once [OF d0, of quiet_world]
  have "trace (snd (Master_dtor (MasterCommandChannel 29500 3) quiet_world)) = [EvSetExiting]"
    by (simp add: s0 q)
  ultimately show ?thesis by blast
qed

text \<open>
  A whole life of the master channel, set up with all its workers and then destroyed:
  the listening socket and every accepted connection are closed once.
\<close>

lemma init_then_teardown:
  assumes size: "length (sockets st) = Suc (length arr)"
    and backlog: "backlog w = map fst arr @ later"
    and hello: "\<forall>(c, r) \<in> set arr. hello w c = Some r"
    and ranks: "distinct (map snd arr)" "\<forall>r \<in> snd ` set arr. 0 < r \<and> r \<le> length arr"
    and conns: "distinct (map fst arr)" "\<forall>c \<in> fst ` set arr. 0 \<le> c \<and> \<not> peer_gone w c"
    and listening: "0 \<le> listen_fd w"
    and lfd: "listen_fd w \<notin> fst ` set arr"
  shows "\<exists>st' w'. Master_init st w = (Returns True, st', w')
     \<and> distinct (filter (\<lambda>s. s \<noteq> - 1) (sockets st'))
     \<and> (\<forall>d. count_list (drop (length (trace w)) (trace (snd (Master_dtor st' w')))) (EvClose d)
            = (if d = listen_fd w \<or> d \<in> fst ` set arr then 1 else 0))"
proof -
  let ?ys = "slotted arr ((sockets st)[0 := listen_fd w])"
  from Master_init_joined [OF size backlog hello ranks conns listening] obtain st' w'
    where init: "Master_init st w = (Returns True, st', w')"
      and slots: "sockets st' = ?ys[0 := - 1]"
      and started: "started st'"
      and log: "trace w' = trace w @ [EvListen (port st) (listen_fd w)] @
          joined arr (listen_fd w) @ map (\<lambda>s. EvSend s [1]) (tl ?ys) @
          [EvClose (listen_fd w), EvSpawn]"
    by auto
  have len: "length ((sockets st)[0 := listen_fd w]) = Suc (length arr)"
    using size by simp
  have sets: "set (tl ?ys) = fst ` set arr"
    by (rule set_tl_slotted [OF len ranks])
  have dist: "distinct (tl ?ys)"
    by (rule distinct_tl_slotted [OF len ranks conns(1)])
  have "length ?ys = Suc (length arr)"
    using len by simp
  then have shape: "sockets st' = (- 1) # tl ?ys"
    using slots by (cases ?ys) simp_all
  have open_ones: "filter (\<lambda>s. s \<noteq> - 1) (sockets st') = tl ?ys"
    using sets conns(2) by (auto simp: shape filter_id_conv)
  have no_close: "count_list (joined arr l) (EvClose d) = 0" for l d
    by (induction arr) auto
  have no_close': "count_list (map (\<lambda>s. EvSend s [1]) ss) (EvClose d) = 0" for ss d
    by (induction ss) auto
  have "count_list (drop (length (trace w)) (trace (snd (Master_dtor st' w')))) (EvClose d)
            = (if d = listen_fd w \<or> d \<in> fst ` set arr then 1 else 0)" for d
    using count_list_closes [OF dist, of d] lfd
    by (auto simp: Master_dtor_trace log started open_ones sets no_close no_close')
  with init dist open_ones show ?thesis by simp
qed

section \<open>The listener thread\<close>

lemma length_poll [simp]: "length (poll pfds rs) = length pfds"
  by (simp add: poll_def)

lemma fd_poll [simp]: "j < length pfds \<Longrightarrow> fd (poll pfds rs ! j) = fd (pfds ! j)"
  by (simp add: poll_def)

lemma map_fd_poll [simp]: "map fd (poll pfds rs) = map fd pfds"
  by (rule nth_equalityI) simp_all

lemma revents_poll_ignored:
  "j < length pfds \<Longrightarrow> fd (pfds ! j) < 0 \<Longrightarrow> revents (poll pfds rs ! j) = 0"
  by (simp add: poll_def)

lemma length_reset [simp]:
  "length (reset_poll_events st) =
     (case poll_events st of None \<Rightarrow> length (sockets st) | Some pfds \<Rightarrow> length pfds)"
  by (simp add: reset_poll_events_def split: option.splits)

lemma fd_reset_cached:
  "poll_events st = Some pfds \<Longrightarrow> j < length pfds \<Longrightarrow> fd (reset_poll_events st ! j) = fd (pfds ! j)"
  by (simp add: reset_poll_events_def)

lemma wait_loop_facts:
  assumes "wait_loop ex w pfds script = Some (res, ex', pfds', w', rest)"
  shows "length pfds' = length pfds
       \<and> (\<forall>j < length pfds. fd (pfds' ! j) = fd (pfds ! j))
       \<and> (res = Ready \<longrightarrow> \<not> ex' \<and> (\<forall>j < length pfds. fd (pfds ! j) < 0 \<longrightarrow> revents (pfds' ! j) = 0))
       \<and> (res = Exiting \<longrightarrow> ex')
       \<and> (ex \<longrightarrow> ex')
       \<and> (\<exists>polls. trace w' = trace w @ polls \<and> list_all bounded_poll polls)
       \<and> incoming w' = incoming w \<and> peer_gone w' = peer_gone w"
  using assms
proof (induction script arbitrary: ex w pfds)
  case Nil
  then show ?case by simp
next
  case (Cons wk script)
  let ?w1 = "w\<lparr>trace := trace w @ [EvPoll (map fd pfds) 500]\<rparr>"
  show ?case
  proof (cases "result wk")
    case (PollThrows msg)
    with Cons.prems show ?thesis by (auto simp: Let_def)
  next
    case (PollReturns ret rs)
    show ?thesis
    proof (cases "ex \<or> exit_seen wk")
      case True
      with PollReturns Cons.prems show ?thesis
        by (auto simp: Let_def revents_poll_ignored)
    next
      case False
      show ?thesis
      proof (cases "ret = 0")
        case True
        with False PollReturns Cons.prems
        have "wait_loop False ?w1 (poll pfds rs) script = Some (res, ex', pfds', w', rest)"
          by (simp add: Let_def)
        from Cons.IH [OF this] False show ?thesis
          by auto
      next
        case nonzero: False
        with False PollReturns Cons.prems show ?thesis
          by (auto simp: Let_def revents_poll_ignored)
      qed
    qed
  qed
qed

lemma first_ready_facts:
  "first_ready pfds k = Some r \<Longrightarrow>
   k \<le> r \<and> r - k < length pfds \<and> revents (pfds ! (r - k)) \<noteq> 0"
proof (induction pfds arbitrary: k)
  case Nil
  then show ?case by simp
next
  case (Cons p ps)
  show ?case
  proof (cases "revents p = 0")
    case True
    with Cons.prems have "first_ready ps (Suc k) = Some r" by simp
    from Cons.IH [OF this] show ?thesis
      by (auto simp: Suc_diff_le)
  next
    case False
    with Cons.prems show ?thesis by simp
  qed
qed

lemma xor_zero_iff: "(a :: 16 word) XOR b = 0 \<longleftrightarrow> a = b"
proof
  assume h: "a XOR b = 0"
  have "a XOR (a XOR b) = b"
    by (simp add: xor.assoc [symmetric])
  with h show "a = b" by simp
next
  assume "a = b"
  then show "a XOR b = 0" by simp
qed

lemma service_closed:
  "revents (pfds ! r) \<noteq> POLLIN \<Longrightarrow>
   service w pfds r =
     (Returns (r, ''connection with worker has been closed''),
      pfds[r := (pfds ! r)\<lparr>fd := - 1\<rparr>], w)"
  by (simp add: service_def Let_def xor_zero_iff)

lemma service_facts:
  assumes "service w pfds r = (res, pfds', w')"
  shows "length pfds' = length pfds
       \<and> (\<forall>j < length pfds. fd (pfds' ! j) = fd (pfds ! j) \<or> fd (pfds' ! j) = - 1)
       \<and> (\<forall>r' text. res = Returns (r', text) \<longrightarrow> r' = r)"
proof (cases "revents (pfds ! r) = POLLIN")
  case False
  from service_closed [OF this, of w] assms
  have "pfds' = pfds[r := (pfds ! r)\<lparr>fd := - 1\<rparr>]"
    and "res = Returns (r, ''connection with worker has been closed'')"
    by simp_all
  moreover have "fd (pfds[r := (pfds ! r)\<lparr>fd := - 1\<rparr>] ! j) = fd (pfds ! j)
      \<or> fd (pfds[r := (pfds ! r)\<lparr>fd := - 1\<rparr>] ! j) = - 1" if "j < length pfds" for j
    using that by (cases "j = r") simp_all
  ultimately show ?thesis
    by simp
next
  case True
  with assms have "pfds' = pfds" and "\<forall>r' text. res = Returns (r', text) \<longrightarrow> r' = r"
    by (auto simp: service_def Let_def split: prod.splits outcome.splits)
  then show ?thesis by simp
qed

lemma recvError_keeps_excluded:
  assumes ex: "excluded r st" and call: "recvError st w script = Some (res, st', w', rest)"
  shows "excluded r st' \<and> (0 < r \<longrightarrow> (\<forall>text. res \<noteq> Returns (r, text)))"
proof -
  from ex obtain cache where cache: "poll_events st = Some cache" "r < length cache"
    "fd (cache ! r) < 0"
    by (auto simp: excluded_def split: option.splits)
  then have reset: "length (reset_poll_events st) = length cache"
    "fd (reset_poll_events st ! r) < 0"
    by (simp_all add: fd_reset_cached)
  from call obtain how ex' pfds w1 rest'
    where wait: "wait_loop (exiting st) w (reset_poll_events st) script
                   = Some (how, ex', pfds, w1, rest')"
    by (cases "wait_loop (exiting st) w (reset_poll_events st) script")
       (auto simp: recvError_def)
  from wait_loop_facts [OF wait] reset cache(2)
  have pfds: "length pfds = length cache" "fd (pfds ! r) < 0"
    and quiet: "how = Ready \<longrightarrow> revents (pfds ! r) = 0"
    by auto
  show ?thesis
  proof (cases how)
    case Exiting
    with call wait pfds cache(2) show ?thesis
      by (auto simp: recvError_def excluded_def)
  next
    case (Failed msg)
    with call wait pfds cache(2) show ?thesis
      by (auto simp: recvError_def excluded_def)
  next
    case Ready
    show ?thesis
    proof (cases "first_ready pfds 0")
      case None
      with Ready call wait pfds cache(2) show ?thesis
        by (auto simp: recvError_def excluded_def)
    next
      case (Some r')
      from first_ready_facts [OF Some] have r': "revents (pfds ! r') \<noteq> 0" by simp
      with quiet Ready have "r' \<noteq> r" by auto
      obtain res' pfds' w2 where serv: "service w1 pfds r' = (res', pfds', w2)"
        by (cases "service w1 pfds r'")
      with Ready Some call wait
      have st': "st' = st\<lparr>exiting := ex', poll_events := Some pfds'\<rparr>" and res: "res = res'"
        by (auto simp: recvError_def)
      from service_facts [OF serv] pfds cache(2)
      have "length pfds' = length cache" "fd (pfds' ! r) < 0"
        and "\<forall>text. res' \<noteq> Returns (r, text)"
        using \<open>r' \<noteq> r\<close> by auto
      with st' res cache(2) show ?thesis
        by (auto simp: excluded_def)
    qed
  qed
qed

text \<open>
  C5, as the code has it. The wait of \<^verbatim>\<open>recvError\<close> has ended because \<^verbatim>\<open>poll\<close> reports
  events (no exit is requested), and the lowest rank whose \<^verbatim>\<open>revents\<close> is not 0 shows
  anything but plain \<^verbatim>\<open>POLLIN\<close>. Then \<^verbatim>\<open>recvError\<close> returns the report of that rank with
  the text \<open>connection with worker has been closed\<close> and sets the descriptor of that rank
  to \<open>-1\<close>; nothing else changes: the sockets are the same, the other descriptors and
  their events are as \<^verbatim>\<open>poll\<close> left them, and the calls made are the polls alone, so
  nothing is closed and nothing is read. It is the one report of this call. From then on,
  whatever \<^verbatim>\<open>poll\<close> returns, a call of \<^verbatim>\<open>recvError\<close> leaves the descriptor marked and
  returns no report of that rank.
\<close>

theorem closed_connection_reported:
  assumes wait: "wait_loop (exiting st) w (reset_poll_events st) script
                   = Some (Ready, ex, pfds, w1, rest)"
    and first: "first_ready pfds 0 = Some r"
    and hup: "revents (pfds ! r) \<noteq> POLLIN"
  shows "recvError st w script =
           Some (Returns (r, ''connection with worker has been closed''),
                 st\<lparr>exiting := ex, poll_events := Some (pfds[r := (pfds ! r)\<lparr>fd := - 1\<rparr>])\<rparr>,
                 w1, rest)
       \<and> excluded r (st\<lparr>exiting := ex, poll_events := Some (pfds[r := (pfds ! r)\<lparr>fd := - 1\<rparr>])\<rparr>)
       \<and> (\<exists>polls. trace w1 = trace w @ polls \<and> list_all bounded_poll polls)
       \<and> (\<forall>st2 w2 script2 res st3 w3 rest2.
             excluded r st2 \<and> recvError st2 w2 script2 = Some (res, st3, w3, rest2)
             \<longrightarrow> excluded r st3 \<and> (0 < r \<longrightarrow> (\<forall>text. res \<noteq> Returns (r, text))))"
proof (intro conjI)
  show "recvError st w script =
           Some (Returns (r, ''connection with worker has been closed''),
                 st\<lparr>exiting := ex, poll_events := Some (pfds[r := (pfds ! r)\<lparr>fd := - 1\<rparr>])\<rparr>,
                 w1, rest)"
    by (simp add: recvError_def wait first service_closed [OF hup])
  from first_ready_facts [OF first] have "r < length pfds" by simp
  then show "excluded r (st\<lparr>exiting := ex,
      poll_events := Some (pfds[r := (pfds ! r)\<lparr>fd := - 1\<rparr>])\<rparr>)"
    by (simp add: excluded_def)
  from wait_loop_facts [OF wait]
  show "\<exists>polls. trace w1 = trace w @ polls \<and> list_all bounded_poll polls"
    by simp
  show "\<forall>st2 w2 script2 res st3 w3 rest2.
             excluded r st2 \<and> recvError st2 w2 script2 = Some (res, st3, w3, rest2)
             \<longrightarrow> excluded r st3 \<and> (0 < r \<longrightarrow> (\<forall>text. res \<noteq> Returns (r, text)))"
    using recvError_keeps_excluded by blast
qed

theorem closed_connection_reported_witness:
  "map_option (\<lambda>(res, st, w, rest). (res, map_option (map fd) (poll_events st), sockets st, trace w))
      (recvError three_rank_master quiet_world [rank2_hangup])
   = Some (Returns (2, ''connection with worker has been closed''),
           Some [- 1, 7, - 1], [- 1, 7, 8], [EvPoll [- 1, 7, 8] 500])
   \<and> map_option (\<lambda>(res, st, w, rest). (res, excluded 2 st, trace w))
      (recvError (three_rank_master\<lparr>poll_events :=
          Some [\<lparr>fd = - 1, events = POLLIN, revents = 0\<rparr>,
                \<lparr>fd = 7, events = POLLIN, revents = 0\<rparr>,
                \<lparr>fd = - 1, events = POLLIN, revents = POLLHUP\<rparr>]\<rparr>)
         quiet_world [rank2_hangup])
   = Some (Returns (0, ''failed to receive error from worker''), True, [EvPoll [- 1, 7, - 1] 500])
   \<and> map_option (\<lambda>(res, st, w, rest). (res, map_option (map fd) (poll_events st)))
      (recvError three_rank_master quiet_world [both_hangup])
   = Some (Returns (1, ''connection with worker has been closed''), Some [- 1, - 1, 8])"
proof -
  let ?pfds = "[\<lparr>fd = - 1, events = POLLIN, revents = 0\<rparr>,
                \<lparr>fd = 7, events = POLLIN, revents = 0\<rparr>,
                \<lparr>fd = 8, events = POLLIN, revents = POLLHUP\<rparr>]"
  let ?marked = "[\<lparr>fd = - 1, events = POLLIN, revents = 0\<rparr>,
                \<lparr>fd = 7, events = POLLIN, revents = 0\<rparr>,
                \<lparr>fd = - 1, events = POLLIN, revents = POLLHUP\<rparr>]"
  let ?w1 = "quiet_world\<lparr>trace := trace quiet_world @ [EvPoll [- 1, 7, 8] 500]\<rparr>"
  let ?st2 = "three_rank_master\<lparr>poll_events := Some ?marked\<rparr>"
  have wait: "wait_loop (exiting three_rank_master) quiet_world
      (reset_poll_events three_rank_master) [rank2_hangup] = Some (Ready, False, ?pfds, ?w1, [])"
    by (simp add: three_rank_master_def MasterCommandChannel_def reset_poll_events_def
        rank2_hangup_def poll_def Let_def)
  have first: "first_ready ?pfds 0 = Some 2"
    by (simp add: POLLHUP_def)
  have hup: "revents (?pfds ! 2) \<noteq> POLLIN"
    by (simp add: POLLHUP_def POLLIN_def)
  note claim = closed_connection_reported [OF wait first hup]
  from claim have once: "map_option
      (\<lambda>(res, st, w, rest). (res, map_option (map fd) (poll_events st), sockets st, trace w))
      (recvError three_rank_master quiet_world [rank2_hangup])
   = Some (Returns (2, ''connection with worker has been closed''),
           Some [- 1, 7, - 1], [- 1, 7, 8], [EvPoll [- 1, 7, 8] 500])"
    by (simp add: three_rank_master_def MasterCommandChannel_def quiet_world_def)
  have marked: "excluded 2 ?st2"
    by (simp add: excluded_def)
  have "map_option (\<lambda>(res, st, w, rest). (res, trace w, rest))
      (recvError ?st2 quiet_world [rank2_hangup])
   = Some (Returns (0, ''failed to receive error from worker''), [EvPoll [- 1, 7, - 1] 500], [])"
    by (simp add: recvError_def reset_poll_events_def three_rank_master_def
        MasterCommandChannel_def quiet_world_def rank2_hangup_def poll_def Let_def)
  then obtain st3 w3
    where again: "recvError ?st2 quiet_world [rank2_hangup]
        = Some (Returns (0, ''failed to receive error from worker''), st3, w3, [])"
      and log: "trace w3 = [EvPoll [- 1, 7, - 1] 500]"
    by auto
  from claim marked again have "excluded 2 st3"
    by blast
  with again log have "map_option (\<lambda>(res, st, w, rest). (res, excluded 2 st, trace w))
      (recvError ?st2 quiet_world [rank2_hangup])
   = Some (Returns (0, ''failed to receive error from worker''), True, [EvPoll [- 1, 7, - 1] 500])"
    by simp
  moreover
  let ?both = "[\<lparr>fd = - 1, events = POLLIN, revents = 0\<rparr>,
                \<lparr>fd = 7, events = POLLIN, revents = POLLHUP\<rparr>,
                \<lparr>fd = 8, events = POLLIN, revents = POLLHUP\<rparr>]"
  have wait2: "wait_loop (exiting three_rank_master) quiet_world
      (reset_poll_events three_rank_master) [both_hangup] = Some (Ready, False, ?both, ?w1, [])"
    by (simp add: three_rank_master_def MasterCommandChannel_def reset_poll_events_def
        both_hangup_def poll_def Let_def)
  have first2: "first_ready ?both 0 = Some 1"
    by (simp add: POLLHUP_def)
  have hup2: "revents (?both ! 1) \<noteq> POLLIN"
    by (simp add: POLLHUP_def POLLIN_def)
  from closed_connection_reported [OF wait2 first2 hup2]
  have "map_option (\<lambda>(res, st, w, rest). (res, map_option (map fd) (poll_events st)))
      (recvError three_rank_master quiet_world [both_hangup])
   = Some (Returns (1, ''connection with worker has been closed''), Some [- 1, - 1, 8])"
    by simp
  ultimately show ?thesis
    using once by blast
qed

text \<open>
  C5, as the claim has it, fails when a connection of lower rank has events too. Rank 1
  is readable and rank 2 has hung up: \<^verbatim>\<open>recvError\<close> returns the error frame of rank 1; the
  hang-up of rank 2 is not what this call reports, and its descriptor is not marked.
\<close>

theorem closed_connection_counterexample:
  "map_option fst (recvError three_rank_master oom1_world [rank1_readable_rank2_hangup])
     = Some (Returns (1, ''oom''))
   \<and> map_option (map_option (map fd) \<circ> poll_events \<circ> fst \<circ> snd)
       (recvError three_rank_master oom1_world [rank1_readable_rank2_hangup])
     = Some (Some [- 1, 7, 8])"
  by (simp add: recvError_def reset_poll_events_def three_rank_master_def
      MasterCommandChannel_def oom1_world_def quiet_world_def rank1_readable_rank2_hangup_def
      poll_def POLLIN_def POLLHUP_def service_def recv_u64_def recv_bytes_def bytes_to_u64_def
      char_of_byte_def Let_def char_of_def bit_Suc_0_iff)










lemma states_waiting:
  "errorHandler_pass st w script = None \<Longrightarrow> errorHandler_states st w script = [st]"
  by (simp add: errorHandler_states.simps [of st w script])

lemma states_returned:
  "errorHandler_pass st w script = Some (True, st1, w1, rest) \<Longrightarrow>
   errorHandler_states st w script = [st, st1]"
  by (simp add: errorHandler_states.simps [of st w script])

lemma states_latched:
  "errorHandler_pass st w script = Some (False, st1, w1, rest) \<Longrightarrow>
   errorHandler_states st w script = st # errorHandler_states st1 w1 rest"
  by (simp add: errorHandler_states.simps [of st w script])

lemma recvError_keeps_flag:
  "recvError st w script = Some (res, st1, w1, rest) \<Longrightarrow>
   error st1 = error st \<and> sockets st1 = sockets st \<and> started st1 = started st"
  by (auto simp: recvError_def split: option.splits waited.splits prod.splits)

lemma errorHandler_pass_keeps_flag:
  assumes "errorHandler_pass st w script = Some (b, st1, w1, rest)" "error st \<noteq> None"
  shows "error st1 \<noteq> None"
  using assms
  by (auto simp: errorHandler_pass_def latch_def
      split: option.splits outcome.splits prod.splits if_splits dest: recvError_keeps_flag)

lemma flag_stays_set:
  "error st \<noteq> None \<Longrightarrow> s \<in> set (errorHandler_states st w script) \<Longrightarrow> error s \<noteq> None"
proof (induction "length script" arbitrary: st w script rule: less_induct)
  case less
  show ?case
  proof (cases "errorHandler_pass st w script")
    case None
    with less.prems show ?thesis by (simp add: states_waiting)
  next
    case (Some a)
    obtain b st1 w1 rest where a: "a = (b, st1, w1, rest)" by (cases a)
    from errorHandler_pass_keeps_flag [OF Some [unfolded a] less.prems(1)]
    have flag: "error st1 \<noteq> None" .
    show ?thesis
    proof (cases b)
      case True
      with Some a less.prems flag show ?thesis
        by (auto simp: states_returned)
    next
      case False
      from errorHandler_pass_shorter [OF Some [unfolded a]]
      have "length rest < length script" .
      from less.hyps [OF this flag] Some a False less.prems show ?thesis
        by (auto simp: states_latched)
    qed
  qed
qed

lemma rises_all_set: "\<forall>x \<in> set xs. x \<noteq> None \<Longrightarrow> rises xs = 0"
  by (induction xs rule: rises.induct) auto

lemma rises_Cons_le: "rises (x # xs) \<le> Suc (rises xs)"
  by (induction "x # xs" arbitrary: x xs rule: rises.induct) auto

lemma rises_states_le: "rises (map error (errorHandler_states st w script)) \<le> 1"
proof (induction "length script" arbitrary: st w script rule: less_induct)
  case less
  show ?case
  proof (cases "errorHandler_pass st w script")
    case None
    then show ?thesis by (simp add: states_waiting)
  next
    case (Some a)
    obtain b st1 w1 rest where a: "a = (b, st1, w1, rest)" by (cases a)
    show ?thesis
    proof (cases b)
      case True
      with Some a show ?thesis
        by (cases "error st"; cases "error st1") (simp_all add: states_returned)
    next
      case False
      with Some a have states: "errorHandler_states st w script
          = st # errorHandler_states st1 w1 rest"
        by (simp add: states_latched)
      from errorHandler_pass_shorter [OF Some [unfolded a]]
      have IH: "rises (map error (errorHandler_states st1 w1 rest)) \<le> 1"
        by (rule less.hyps)
      show ?thesis
      proof (cases "error st1")
        case None
        then obtain tail where "map error (errorHandler_states st1 w1 rest) = None # tail"
          by (simp add: errorHandler_states.simps [of st1 w1 rest])
        then have "rises (map error (errorHandler_states st w script))
            = rises (map error (errorHandler_states st1 w1 rest))"
          by (simp add: states)
        with IH show ?thesis by simp
      next
        case (Some m)
        then have "\<forall>s \<in> set (errorHandler_states st1 w1 rest). error s \<noteq> None"
          using flag_stays_set [of st1 _ w1 rest] by simp
        then have "rises (map error (errorHandler_states st1 w1 rest)) = 0"
          by (intro rises_all_set) simp
        with rises_Cons_le [of "error st" "map error (errorHandler_states st1 w1 rest)"]
        show ?thesis by (simp add: states)
      qed
    qed
  qed
qed

lemma flag_monotone:
  "i \<le> j \<Longrightarrow> j < length (errorHandler_states st w script) \<Longrightarrow>
   error (errorHandler_states st w script ! i) \<noteq> None \<Longrightarrow>
   error (errorHandler_states st w script ! j) \<noteq> None"
proof (induction "length script" arbitrary: st w script i j rule: less_induct)
  case less
  show ?case
  proof (cases i)
    case 0
    have "errorHandler_states st w script ! 0 = st"
      by (simp add: errorHandler_states.simps [of st w script])
    with 0 less.prems(3) have "error st \<noteq> None" by simp
    from flag_stays_set [OF this] less.prems(2) show ?thesis
      by (meson nth_mem)
  next
    case (Suc i')
    with less.prems(1) obtain j' where j: "j = Suc j'" "i' \<le> j'"
      by (cases j) simp_all
    show ?thesis
    proof (cases "errorHandler_pass st w script")
      case None
      with less.prems(2) j show ?thesis by (simp add: states_waiting)
    next
      case (Some a)
      obtain b st1 w1 rest where a: "a = (b, st1, w1, rest)" by (cases a)
      show ?thesis
      proof (cases b)
        case True
        with Some a less.prems Suc j show ?thesis
          by (simp add: states_returned)
      next
        case False
        with Some a have states: "errorHandler_states st w script
            = st # errorHandler_states st1 w1 rest"
          by (simp add: states_latched)
        from errorHandler_pass_shorter [OF Some [unfolded a]]
        have "length rest < length script" .
        from less.hyps [OF this j(2), of st1 w1] less.prems(2,3) Suc j(1)
        show ?thesis by (simp add: states)
      qed
    qed
  qed
qed

lemma accept_loop_keeps_flag:
  "accept_loop k st w = (res, st', w') \<Longrightarrow> error st' = error st"
proof (induction k arbitrary: st w)
  case 0
  then show ?case by simp
next
  case (Suc k)
  show ?case
  proof (cases "accept w (sockets st ! 0)")
    case (Pair a w1)
    show ?thesis
    proof (cases a)
      case (Returns socket)
      obtain b w2 where r: "recv_rank w1 socket = (b, w2)" by (cases "recv_rank w1 socket")
      show ?thesis
      proof (cases b)
        case inner: (Returns r)
        show ?thesis
        proof (cases "r < length (sockets st)")
          case True
          with Suc.prems Pair Returns r inner
          have "accept_loop k (st\<lparr>sockets := (sockets st)[r := socket]\<rparr>) w2 = (res, st', w')"
            by simp
          from Suc.IH [OF this] show ?thesis by simp
        next
          case False
          with Suc.prems Pair Returns r inner show ?thesis by simp
        qed
      qed (use Suc.prems Pair Returns r in simp_all)
    qed (use Suc.prems Pair in simp_all)
  qed
qed

lemma Master_init_keeps_flag: "error (fst (snd (Master_init st w))) = error st"
proof (cases "listen_fd w < 0")
  case True
  then show ?thesis
    by (simp add: Master_init_def listen_def)
next
  case False
  let ?w0 = "w\<lparr>trace := trace w @ [EvListen (port st) (listen_fd w)]\<rparr>"
  let ?st0 = "st\<lparr>sockets := (sockets st)[0 := listen_fd w]\<rparr>"
  obtain res st1 w1 where a: "accept_loop (length (sockets st) - 1) ?st0 ?w0 = (res, st1, w1)"
    by (cases "accept_loop (length (sockets st) - 1) ?st0 ?w0")
  from accept_loop_keeps_flag [OF a] have "error st1 = error st" by simp
  with False a show ?thesis
    by (auto simp: Master_init_def listen_def split: outcome.splits prod.splits)
qed

text \<open>
  C3. Along any run of \<^verbatim>\<open>errorHandler\<close>, over the states of the channel at the head of
  its loop: the failure flag goes from unset to set at most once; once it is set in one
  of these states it is set in all the later ones, and \<^verbatim>\<open>sendMessage\<close> in such a state
  throws the latched text, to any rank, and writes nothing. The destructor and \<^verbatim>\<open>init\<close> do
  not touch the flag. (A later report replaces the latched text; it does not unset the
  flag.)
\<close>

theorem failure_flag_latched:
  "rises (map error (errorHandler_states st w script)) \<le> 1
   \<and> (\<forall>i j. i \<le> j \<and> j < length (errorHandler_states st w script)
          \<and> error (errorHandler_states st w script ! i) \<noteq> None
        \<longrightarrow> (\<exists>m. error (errorHandler_states st w script ! j) = Some m
              \<and> (\<forall>mw msg dest.
                    Master_sendMessage (errorHandler_states st w script ! j) mw msg dest
                      = (Throws (RuntimeError m), mw))))
   \<and> error (fst (Master_dtor st w0)) = error st
   \<and> error (fst (snd (Master_init st w0))) = error st"
proof (intro conjI allI impI)
  show "rises (map error (errorHandler_states st w script)) \<le> 1"
    by (rule rises_states_le)
  show "error (fst (Master_dtor st w0)) = error st"
    by (simp add: Master_dtor_def Let_def)
  show "error (fst (snd (Master_init st w0))) = error st"
    by (rule Master_init_keeps_flag)
  fix i j
  assume "i \<le> j \<and> j < length (errorHandler_states st w script)
          \<and> error (errorHandler_states st w script ! i) \<noteq> None"
  then have "error (errorHandler_states st w script ! j) \<noteq> None"
    using flag_monotone by blast
  then obtain m where "error (errorHandler_states st w script ! j) = Some m" by auto
  then show "\<exists>m. error (errorHandler_states st w script ! j) = Some m
              \<and> (\<forall>mw msg dest.
                    Master_sendMessage (errorHandler_states st w script ! j) mw msg dest
                      = (Throws (RuntimeError m), mw))"
    by (simp add: sendMessage_flag_set)
qed

lemma two_reports_flags:
  "map error (errorHandler_states three_rank_master oom1_world [rank2_hangup, rank1_readable])
     = [None, Some ''error (rank 2): connection with worker has been closed'',
        Some ''error (rank 1): oom'']"
  by (simp add: errorHandler_states.simps errorHandler_pass_def recvError_def
      reset_poll_events_def three_rank_master_def MasterCommandChannel_def oom1_world_def
      quiet_world_def rank2_hangup_def rank1_readable_def poll_def POLLIN_def POLLHUP_def
      service_def recv_u64_def recv_bytes_def bytes_to_u64_def latch_def to_string_digit
      digit_char_def char_of_byte_def Let_def char_of_def bit_Suc_0_iff)

theorem failure_flag_latched_witness:
  "map error (errorHandler_states three_rank_master oom1_world [rank2_hangup, rank1_readable])
     = [None, Some ''error (rank 2): connection with worker has been closed'',
        Some ''error (rank 1): oom'']
   \<and> rises (map error
        (errorHandler_states three_rank_master oom1_world [rank2_hangup, rank1_readable])) \<le> 1
   \<and> (\<forall>mw msg dest.
         Master_sendMessage
           (errorHandler_states three_rank_master oom1_world [rank2_hangup, rank1_readable] ! 2)
           mw msg dest = (Throws (RuntimeError ''error (rank 1): oom''), mw))"
proof -
  let ?hs = "errorHandler_states three_rank_master oom1_world [rank2_hangup, rank1_readable]"
  note flags = two_reports_flags
  from arg_cong [OF flags, of length] have len: "length ?hs = 3"
    by simp
  then have "error (?hs ! 1) = map error ?hs ! 1" and "error (?hs ! 2) = map error ?hs ! 2"
    by simp_all
  then have at1: "error (?hs ! 1) = Some ''error (rank 2): connection with worker has been closed''"
    and at2: "error (?hs ! 2) = Some ''error (rank 1): oom''"
    by (simp_all only: flags) simp_all
  have hyp: "(1::nat) \<le> 2 \<and> 2 < length ?hs \<and> error (?hs ! 1) \<noteq> None"
    using len at1 by simp
  from failure_flag_latched [of three_rank_master oom1_world "[rank2_hangup, rank1_readable]"]
  have "rises (map error ?hs) \<le> 1"
    and "\<exists>m. error (?hs ! 2) = Some m
              \<and> (\<forall>mw msg dest. Master_sendMessage (?hs ! 2) mw msg dest
                      = (Throws (RuntimeError m), mw))"
    using hyp by blast+
  with at2 flags show ?thesis by auto
qed

section \<open>The layout of a frame\<close>

lemma Worker_sendError_Returns:
  assumes "Worker_sendError wk w text = (Returns u, w')"
  shows "w' = w\<lparr>trace := trace w @
                 [EvSend (socket wk) (u64_to_bytes (of_nat (length text))),
                  EvSend (socket wk)
                    (take (unat (of_nat (length text) :: 64 word)) (map byte_of_char text))]\<rparr>"
  using assms
  by (auto simp: Worker_sendError_def send_u64_def send_bytes_def Let_def split: if_splits)

lemma service_frame:
  assumes "revents (pfds ! r) = POLLIN" "0 \<le> fd (pfds ! r)"
    and "incoming w (fd (pfds ! r)) = hdr @ body @ rest" "length hdr = 8"
    and "length body = unat (bytes_to_u64 hdr)"
  shows "service w pfds r =
     (Returns (r, map char_of_byte body), pfds,
      w\<lparr>trace := trace w @ [EvRecv (fd (pfds ! r)) 8, EvRecv (fd (pfds ! r)) (length body)],
        incoming := (incoming w)(fd (pfds ! r) := rest)\<rparr>)"
proof -
  let ?s = "fd (pfds ! r)"
  let ?w1 = "w\<lparr>trace := trace w @ [EvRecv ?s 8], incoming := (incoming w)(?s := body @ rest)\<rparr>"
  have 1: "recv_u64 w ?s = (Returns (bytes_to_u64 hdr), ?w1)"
    by (rule recv_u64_raw [OF assms(2) assms(3) assms(4)])
  have 2: "recv_bytes ?w1 ?s (length body) =
     (Returns body, ?w1\<lparr>trace := trace ?w1 @ [EvRecv ?s (length body)],
        incoming := (incoming ?w1)(?s := rest)\<rparr>)"
    by (rule recv_bytes_ok [OF assms(2)]) simp_all
  show ?thesis
    using 2 by (simp add: service_def Let_def assms(1) 1 assms(5) [symmetric])
qed

lemma char_of_byte_inverse: "char_of_byte (byte_of_char c) = c"
proof -
  have "(of_char c :: 8 word) = of_nat (of_char c)" by (simp only: of_nat_of_char)
  then have "unat (of_char c :: 8 word) = of_char c mod 256"
    by (simp only: unat_of_nat) simp
  then show ?thesis by (simp add: char_of_byte_def byte_of_char_def)
qed

text \<open>
  The text of a report survives the wire: what the worker hands to \<^verbatim>\<open>sendError\<close> is
  what the frame read of \<^verbatim>\<open>recvError\<close> returns for its rank.
\<close>

lemma error_text_round_trip:
  assumes len: "length text < 2 ^ 64"
    and sent: "Worker_sendError wk ww text = (Returns (), ww')"
    and ready: "revents (pfds ! r) = POLLIN" "0 \<le> fd (pfds ! r)"
    and wire: "incoming w (fd (pfds ! r)) =
                 sent_to (socket wk) (drop (length (trace ww)) (trace ww')) @ rest"
  shows "fst (service w pfds r) = Returns (r, text)"
proof -
  let ?n = "of_nat (length text) :: 64 word"
  from Worker_sendError_Returns [OF sent] len
  have "drop (length (trace ww)) (trace ww') =
          [EvSend (socket wk) (u64_to_bytes ?n), EvSend (socket wk) (map byte_of_char text)]"
    by (simp add: unat_length_u64)
  with wire
  have "incoming w (fd (pfds ! r)) = u64_to_bytes ?n @ map byte_of_char text @ rest"
    by simp
  from service_frame [OF ready this length_u64_to_bytes] len show ?thesis
    by (simp add: bytes_to_u64_inverse unat_length_u64 char_of_byte_inverse comp_def)
qed

text \<open>
  C9. A frame is the length as eight bytes, then the payload as it is. The master's
  \<^verbatim>\<open>sendMessage\<close> and the worker's \<^verbatim>\<open>sendError\<close> write first the eight bytes of the
  length in the fixed representation, then the bytes of the payload, unchanged. The worker's
  \<^verbatim>\<open>receiveMessage\<close> and the frame read of the master's \<^verbatim>\<open>recvError\<close> read eight bytes,
  decode them by the inverse of that representation, and read exactly that many bytes,
  which they return as they are; whatever length the eight bytes declare, no bound is put
  on it.
\<close>

theorem frame_layout:
  assumes "length payload < 2 ^ 64" and "length text < 2 ^ 64"
    and "length hdr = 8" and "length body = unat (bytes_to_u64 hdr)"
  shows "(sendMessage w s payload = (Returns (), w') \<longrightarrow>
            trace w' = trace w @
              [EvSend s (u64_to_bytes (of_nat (length payload))), EvSend s payload])
       \<and> (Worker_sendError wk w text = (Returns (), w') \<longrightarrow>
            trace w' = trace w @
              [EvSend (socket wk) (u64_to_bytes (of_nat (length text))),
               EvSend (socket wk) (map byte_of_char text)])
       \<and> length (u64_to_bytes n) = 8 \<and> bytes_to_u64 (u64_to_bytes n) = n
       \<and> (0 \<le> s \<and> incoming w s = hdr @ body @ rest \<longrightarrow>
            receiveMessage w s =
              (Returns body,
               w\<lparr>trace := trace w @ [EvRecv s 8, EvRecv s (length body)],
                 incoming := (incoming w)(s := rest)\<rparr>))
       \<and> (revents (pfds ! r) = POLLIN \<and> 0 \<le> fd (pfds ! r)
            \<and> incoming w (fd (pfds ! r)) = hdr @ body @ rest \<longrightarrow>
            service w pfds r =
              (Returns (r, map char_of_byte body), pfds,
               w\<lparr>trace := trace w @
                   [EvRecv (fd (pfds ! r)) 8, EvRecv (fd (pfds ! r)) (length body)],
                 incoming := (incoming w)(fd (pfds ! r) := rest)\<rparr>))"
proof (intro conjI impI)
  assume "sendMessage w s payload = (Returns (), w')"
  from sendMessage_Returns [OF this] assms(1)
  show "trace w' = trace w @
      [EvSend s (u64_to_bytes (of_nat (length payload))), EvSend s payload]"
    by (simp add: unat_length_u64)
next
  assume "Worker_sendError wk w text = (Returns (), w')"
  from Worker_sendError_Returns [OF this] assms(2)
  show "trace w' = trace w @
      [EvSend (socket wk) (u64_to_bytes (of_nat (length text))),
       EvSend (socket wk) (map byte_of_char text)]"
    by (simp add: unat_length_u64)
next
  show "length (u64_to_bytes n) = 8" by (rule length_u64_to_bytes)
  show "bytes_to_u64 (u64_to_bytes n) = n" by (rule bytes_to_u64_inverse)
next
  assume "0 \<le> s \<and> incoming w s = hdr @ body @ rest"
  then have "0 \<le> s" "incoming w s = hdr @ body @ rest" by simp_all
  from receiveMessage_raw [OF this assms(3) assms(4)]
  show "receiveMessage w s =
      (Returns body,
       w\<lparr>trace := trace w @ [EvRecv s 8, EvRecv s (length body)],
         incoming := (incoming w)(s := rest)\<rparr>)" .
next
  assume "revents (pfds ! r) = POLLIN \<and> 0 \<le> fd (pfds ! r)
            \<and> incoming w (fd (pfds ! r)) = hdr @ body @ rest"
  then have "revents (pfds ! r) = POLLIN" "0 \<le> fd (pfds ! r)"
    "incoming w (fd (pfds ! r)) = hdr @ body @ rest"
    by simp_all
  from service_frame [OF this assms(3) assms(4)]
  show "service w pfds r =
      (Returns (r, map char_of_byte body), pfds,
       w\<lparr>trace := trace w @
           [EvRecv (fd (pfds ! r)) 8, EvRecv (fd (pfds ! r)) (length body)],
         incoming := (incoming w)(fd (pfds ! r) := rest)\<rparr>)" .
qed

theorem frame_layout_witness:
  "trace (snd (sendMessage quiet_world 7 [104, 105])) =
      [EvSend 7 [0, 0, 0, 0, 0, 0, 0, 2], EvSend 7 [104, 105]]
   \<and> trace (snd (Worker_sendError joined_worker quiet_world ''oom'')) =
      [EvSend 3 [0, 0, 0, 0, 0, 0, 0, 3], EvSend 3 [111, 111, 109]]
   \<and> receiveMessage oom1_world 7 =
      (Returns [111, 111, 109],
       oom1_world\<lparr>trace := trace oom1_world @ [EvRecv 7 8, EvRecv 7 3],
         incoming := (incoming oom1_world)(7 := [])\<rparr>)
   \<and> service oom1_world
        [\<lparr>fd = - 1, events = POLLIN, revents = 0\<rparr>,
         \<lparr>fd = 7, events = POLLIN, revents = POLLIN\<rparr>] 1 =
      (Returns (1, ''oom''),
       [\<lparr>fd = - 1, events = POLLIN, revents = 0\<rparr>,
        \<lparr>fd = 7, events = POLLIN, revents = POLLIN\<rparr>],
       oom1_world\<lparr>trace := trace oom1_world @ [EvRecv 7 8, EvRecv 7 3],
         incoming := (incoming oom1_world)(7 := [])\<rparr>)"
proof -
  let ?pfds = "[\<lparr>fd = - 1, events = POLLIN, revents = 0\<rparr>,
                \<lparr>fd = 7, events = POLLIN, revents = POLLIN\<rparr>]"
  let ?hdr = "[0, 0, 0, 0, 0, 0, 0, 3] :: byte list"
  let ?body = "[111, 111, 109] :: byte list"
  have a: "length [104, 105 :: byte] < 2 ^ 64" "length ''oom'' < 2 ^ 64" "length ?hdr = 8"
    by simp_all
  have b: "length ?body = unat (bytes_to_u64 ?hdr)"
    by (simp add: bytes_to_u64_def)
  have sent: "sendMessage quiet_world 7 [104, 105] =
      (Returns (), snd (sendMessage quiet_world 7 [104, 105]))"
    by (simp add: sendMessage_def send_u64_def send_bytes_def quiet_world_def)
  have reported: "Worker_sendError joined_worker quiet_world ''oom'' =
      (Returns (), snd (Worker_sendError joined_worker quiet_world ''oom''))"
    by (simp add: Worker_sendError_def send_u64_def send_bytes_def quiet_world_def
        joined_worker_def WorkerCommandChannel_def)
  have wire: "0 \<le> (7::int) \<and> incoming oom1_world 7 = ?hdr @ ?body @ []"
    by (simp add: oom1_world_def)
  have q: "trace quiet_world = []"
    by (simp add: quiet_world_def)
  have enc: "u64_to_bytes 2 = [0, 0, 0, 0, 0, 0, 0, 2]" "u64_to_bytes 3 = [0, 0, 0, 0, 0, 0, 0, 3]"
    by (simp_all add: u64_to_bytes_def)
  have chars: "map byte_of_char ''oom'' = [111, 111, 109]" "socket joined_worker = 3"
    by (simp_all add: byte_of_char_def joined_worker_def)
  from frame_layout [OF a b, where w = quiet_world and s = 7
      and w' = "snd (sendMessage quiet_world 7 [104, 105])"] sent
  have 1: "trace (snd (sendMessage quiet_world 7 [104, 105])) =
      [EvSend 7 [0, 0, 0, 0, 0, 0, 0, 2], EvSend 7 [104, 105]]"
    by (simp add: q enc)
  from frame_layout [OF a b, where w = quiet_world and wk = joined_worker
      and w' = "snd (Worker_sendError joined_worker quiet_world ''oom'')"] reported
  have 2: "trace (snd (Worker_sendError joined_worker quiet_world ''oom'')) =
      [EvSend 3 [0, 0, 0, 0, 0, 0, 0, 3], EvSend 3 [111, 111, 109]]"
    by (simp add: q enc chars byte_of_char_def)
  from frame_layout [OF a b, where w = oom1_world and s = 7 and rest = "[]"] wire
  have 3: "receiveMessage oom1_world 7 =
      (Returns [111, 111, 109],
       oom1_world\<lparr>trace := trace oom1_world @ [EvRecv 7 8, EvRecv 7 3],
         incoming := (incoming oom1_world)(7 := [])\<rparr>)"
    by simp
  have ready: "revents (?pfds ! 1) = POLLIN \<and> 0 \<le> fd (?pfds ! 1)
      \<and> incoming oom1_world (fd (?pfds ! 1)) = ?hdr @ ?body @ []"
    by (simp add: oom1_world_def)
  from frame_layout [OF a b, where w = oom1_world and pfds = ?pfds and r = 1 and rest = "[]"]
    ready
  have 4: "service oom1_world ?pfds 1 =
      (Returns (1, ''oom''), ?pfds,
       oom1_world\<lparr>trace := trace oom1_world @ [EvRecv 7 8, EvRecv 7 3],
         incoming := (incoming oom1_world)(7 := [])\<rparr>)"
    by (simp add: char_of_byte_def char_of_def bit_Suc_0_iff)
  from 1 2 3 4 show ?thesis by blast
qed

end
